theory Spec2Isabelle
  imports Complex_Main "HOL-Library.Word" "HOL-Library.Monad_Syntax"
begin

unbundle bit_operations_syntax

section \<open>The climate meter sketch (climate\_meter.ino)\<close>

text \<open>
  The sketch runs on an Arduino Nano (ATmega328P, AVR): \<open>byte\<close> is 8 bits,
  \<open>unsigned int\<close> and \<open>unsigned short\<close> are 16 bits, \<open>float\<close> is an IEEE-754
  binary32 value, and objects are laid out in memory least significant byte first.
  \<open>DEBUG\<close> is not defined in the source, so every \<open>DEBUG_...\<close> macro expands to
  nothing and the body of \<open>communicate\<close> is compiled.

  A \<open>float\<close> is modelled by its 32-bit pattern; nothing in the sketch computes with
  floats, it only stores them, tests \<open>isnan\<close> and copies their bytes.
\<close>

type_synonym byte = "8 word"
type_synonym float32 = "32 word"

subsection \<open>Constants\<close>

text \<open>\<open>#define EMPTY_VAL -100.0\<close>: the binary32 pattern of \<open>-100.0\<close>.\<close>

definition EMPTY_VAL :: float32 where
  "EMPTY_VAL = 0xC2C80000"

definition ONE_WIRE_CNT :: nat where
  "ONE_WIRE_CNT = 3"

definition MODBUS_BUF_LEN :: nat where
  "MODBUS_BUF_LEN = 33"

text \<open>
  The number a binary32 pattern denotes (\<open>None\<close> for infinities and NaNs), used to
  relate \<open>EMPTY_VAL\<close> to the literal of the source.
\<close>

definition float_val :: "float32 \<Rightarrow> rat option" where
  "float_val x =
     (let sgn = (if bit x 31 then - 1 else 1);
          e = unat (take_bit 8 (drop_bit 23 x));
          m = unat (take_bit 23 x)
      in if e = 255 then None
         else if e = 0 then Some (sgn * (of_nat m / 2 ^ 23) / 2 ^ 126)
         else Some (sgn * (1 + of_nat m / 2 ^ 23) * 2 ^ e / 2 ^ 127))"

text \<open>\<open>isnan\<close>: exponent all ones and a non-zero fraction.\<close>

definition isnan :: "float32 \<Rightarrow> bool" where
  "isnan x \<longleftrightarrow> take_bit 8 (drop_bit 23 x) = 0xFF \<and> take_bit 23 x \<noteq> 0"

subsection \<open>The CRC tables and \<open>CRC16\<close>\<close>

definition crcHiTable :: "byte list" where
  "crcHiTable = [
  0x00, 0xC1, 0x81, 0x40, 0x01, 0xC0, 0x80, 0x41, 0x01, 0xC0, 0x80, 0x41, 0x00, 0xC1, 0x81,
  0x40, 0x01, 0xC0, 0x80, 0x41, 0x00, 0xC1, 0x81, 0x40, 0x00, 0xC1, 0x81, 0x40, 0x01, 0xC0,
  0x80, 0x41, 0x01, 0xC0, 0x80, 0x41, 0x00, 0xC1, 0x81, 0x40, 0x00, 0xC1, 0x81, 0x40, 0x01,
  0xC0, 0x80, 0x41, 0x00, 0xC1, 0x81, 0x40, 0x01, 0xC0, 0x80, 0x41, 0x01, 0xC0, 0x80, 0x41,
  0x00, 0xC1, 0x81, 0x40, 0x01, 0xC0, 0x80, 0x41, 0x00, 0xC1, 0x81, 0x40, 0x00, 0xC1, 0x81,
  0x40, 0x01, 0xC0, 0x80, 0x41, 0x00, 0xC1, 0x81, 0x40, 0x01, 0xC0, 0x80, 0x41, 0x01, 0xC0,
  0x80, 0x41, 0x00, 0xC1, 0x81, 0x40, 0x00, 0xC1, 0x81, 0x40, 0x01, 0xC0, 0x80, 0x41, 0x01,
  0xC0, 0x80, 0x41, 0x00, 0xC1, 0x81, 0x40, 0x01, 0xC0, 0x80, 0x41, 0x00, 0xC1, 0x81, 0x40,
  0x00, 0xC1, 0x81, 0x40, 0x01, 0xC0, 0x80, 0x41, 0x01, 0xC0, 0x80, 0x41, 0x00, 0xC1, 0x81,
  0x40, 0x00, 0xC1, 0x81, 0x40, 0x01, 0xC0, 0x80, 0x41, 0x00, 0xC1, 0x81, 0x40, 0x01, 0xC0,
  0x80, 0x41, 0x01, 0xC0, 0x80, 0x41, 0x00, 0xC1, 0x81, 0x40, 0x00, 0xC1, 0x81, 0x40, 0x01,
  0xC0, 0x80, 0x41, 0x01, 0xC0, 0x80, 0x41, 0x00, 0xC1, 0x81, 0x40, 0x01, 0xC0, 0x80, 0x41,
  0x00, 0xC1, 0x81, 0x40, 0x00, 0xC1, 0x81, 0x40, 0x01, 0xC0, 0x80, 0x41, 0x00, 0xC1, 0x81,
  0x40, 0x01, 0xC0, 0x80, 0x41, 0x01, 0xC0, 0x80, 0x41, 0x00, 0xC1, 0x81, 0x40, 0x01, 0xC0,
  0x80, 0x41, 0x00, 0xC1, 0x81, 0x40, 0x00, 0xC1, 0x81, 0x40, 0x01, 0xC0, 0x80, 0x41, 0x01,
  0xC0, 0x80, 0x41, 0x00, 0xC1, 0x81, 0x40, 0x00, 0xC1, 0x81, 0x40, 0x01, 0xC0, 0x80, 0x41,
  0x00, 0xC1, 0x81, 0x40, 0x01, 0xC0, 0x80, 0x41, 0x01, 0xC0, 0x80, 0x41, 0x00, 0xC1, 0x81,
  0x40]"

definition crcLoTable :: "byte list" where
  "crcLoTable = [
  0x00, 0xC0, 0xC1, 0x01, 0xC3, 0x03, 0x02, 0xC2, 0xC6, 0x06, 0x07, 0xC7, 0x05, 0xC5, 0xC4,
  0x04, 0xCC, 0x0C, 0x0D, 0xCD, 0x0F, 0xCF, 0xCE, 0x0E, 0x0A, 0xCA, 0xCB, 0x0B, 0xC9, 0x09,
  0x08, 0xC8, 0xD8, 0x18, 0x19, 0xD9, 0x1B, 0xDB, 0xDA, 0x1A, 0x1E, 0xDE, 0xDF, 0x1F, 0xDD,
  0x1D, 0x1C, 0xDC, 0x14, 0xD4, 0xD5, 0x15, 0xD7, 0x17, 0x16, 0xD6, 0xD2, 0x12, 0x13, 0xD3,
  0x11, 0xD1, 0xD0, 0x10, 0xF0, 0x30, 0x31, 0xF1, 0x33, 0xF3, 0xF2, 0x32, 0x36, 0xF6, 0xF7,
  0x37, 0xF5, 0x35, 0x34, 0xF4, 0x3C, 0xFC, 0xFD, 0x3D, 0xFF, 0x3F, 0x3E, 0xFE, 0xFA, 0x3A,
  0x3B, 0xFB, 0x39, 0xF9, 0xF8, 0x38, 0x28, 0xE8, 0xE9, 0x29, 0xEB, 0x2B, 0x2A, 0xEA, 0xEE,
  0x2E, 0x2F, 0xEF, 0x2D, 0xED, 0xEC, 0x2C, 0xE4, 0x24, 0x25, 0xE5, 0x27, 0xE7, 0xE6, 0x26,
  0x22, 0xE2, 0xE3, 0x23, 0xE1, 0x21, 0x20, 0xE0, 0xA0, 0x60, 0x61, 0xA1, 0x63, 0xA3, 0xA2,
  0x62, 0x66, 0xA6, 0xA7, 0x67, 0xA5, 0x65, 0x64, 0xA4, 0x6C, 0xAC, 0xAD, 0x6D, 0xAF, 0x6F,
  0x6E, 0xAE, 0xAA, 0x6A, 0x6B, 0xAB, 0x69, 0xA9, 0xA8, 0x68, 0x78, 0xB8, 0xB9, 0x79, 0xBB,
  0x7B, 0x7A, 0xBA, 0xBE, 0x7E, 0x7F, 0xBF, 0x7D, 0xBD, 0xBC, 0x7C, 0xB4, 0x74, 0x75, 0xB5,
  0x77, 0xB7, 0xB6, 0x76, 0x72, 0xB2, 0xB3, 0x73, 0xB1, 0x71, 0x70, 0xB0, 0x50, 0x90, 0x91,
  0x51, 0x93, 0x53, 0x52, 0x92, 0x96, 0x56, 0x57, 0x97, 0x55, 0x95, 0x94, 0x54, 0x9C, 0x5C,
  0x5D, 0x9D, 0x5F, 0x9F, 0x9E, 0x5E, 0x5A, 0x9A, 0x9B, 0x5B, 0x99, 0x59, 0x58, 0x98, 0x88,
  0x48, 0x49, 0x89, 0x4B, 0x8B, 0x8A, 0x4A, 0x4E, 0x8E, 0x8F, 0x4F, 0x8D, 0x4D, 0x4C, 0x8C,
  0x44, 0x84, 0x85, 0x45, 0x87, 0x47, 0x46, 0x86, 0x82, 0x42, 0x43, 0x83, 0x41, 0x81, 0x80,
  0x40]"

text \<open>
  The \<open>while (len--)\<close> loop of \<open>CRC16\<close>, by recursion on the number of iterations left.
  Reading past the end of the buffer is undefined behaviour in the source and \<open>None\<close> here.
  \<open>index\<close> is the exclusive or of two bytes, so both table reads are in range.
\<close>

fun CRC16_loop :: "byte list \<Rightarrow> nat \<Rightarrow> byte \<Rightarrow> byte \<Rightarrow> (byte \<times> byte) option" where
  "CRC16_loop buf 0 crcHi crcLo = Some (crcHi, crcLo)"
| "CRC16_loop [] (Suc n) crcHi crcLo = None"
| "CRC16_loop (b # buf) (Suc n) crcHi crcLo =
     (let index = unat (crcLo XOR b)
      in CRC16_loop buf n (crcLoTable ! index) (crcHi XOR crcHiTable ! index))"

text \<open>\<open>unsigned int CRC16(byte* buf, unsigned int len)\<close>, returning \<open>crcHi << 8 | crcLo\<close>.\<close>

definition CRC16 :: "byte list \<Rightarrow> 16 word \<Rightarrow> 16 word option" where
  "CRC16 buf len =
     map_option (\<lambda>(crcHi, crcLo). push_bit 8 (ucast crcHi) OR ucast crcLo)
       (CRC16_loop buf (unat len) 0xFF 0xFF)"

subsection \<open>The reference CRC-16\<close>

text \<open>
  The reference algorithm of the specification, bit by bit: the register starts at
  \<open>0xFFFF\<close>; each input byte is xor-ed into its low byte and the register is shifted
  right eight times, xor-ing in the reflected polynomial \<open>0xA001\<close> whenever a one is
  shifted out.
\<close>

definition crc_shift :: "16 word \<Rightarrow> 16 word" where
  "crc_shift c = (if bit c 0 then drop_bit 1 c XOR 0xA001 else drop_bit 1 c)"

definition crc_byte :: "16 word \<Rightarrow> byte \<Rightarrow> 16 word" where
  "crc_byte c b = (crc_shift ^^ 8) (c XOR ucast b)"

definition crc16_ref :: "byte list \<Rightarrow> 16 word" where
  "crc16_ref bs = foldl crc_byte 0xFFFF bs"

subsection \<open>Program state\<close>

text \<open>
  Calls into the serial port and the sensor libraries (Adafruit\_BMP280, DHT,
  DallasTemperature) are recorded, in program order, in a trace. The libraries are not
  part of the sketch: what a call returns is a parameter of the function that makes it.
\<close>

datatype event =
    SerialBegin nat
  | SerialAvailable
  | SerialRead byte
  | SerialWrite "byte list"
  | BmpBegin
  | BmpSetSampling
  | BmpReadPressure
  | BmpReadTemperature
  | DhtBegin
  | DhtReadHumidity
  | DhtReadTemperature
  | DsSetOneWire int
  | DsBegin int
  | DsGetAddress int
  | DsSetResolution int
  | DsRequestTemperatures int
  | DsGetTempCByIndex int

text \<open>The global variables of the sketch, and the trace \<open>io\<close>.\<close>

record state =
  bmpFound :: bool
  bmpP :: float32
  bmpT :: float32
  dhtH :: float32
  dhtT :: float32
  dsT :: "float32 list"
  modbusBuf :: "byte list"
  io :: "event list"

text \<open>The initialisers of the globals.\<close>

definition initial_state :: state where
  "initial_state =
     \<lparr>bmpFound = False, bmpP = EMPTY_VAL, bmpT = EMPTY_VAL,
      dhtH = EMPTY_VAL, dhtT = EMPTY_VAL,
      dsT = [EMPTY_VAL, EMPTY_VAL, EMPTY_VAL],
      modbusBuf = [0x00, 0x03, 0x1C,
        0x00, 0x00, 0x00, 0x00,
        0x00, 0x00, 0x00, 0x00,
        0x00, 0x00, 0x00, 0x00,
        0x00, 0x00, 0x00, 0x00,
        0x00, 0x00, 0x00, 0x00,
        0x00, 0x00, 0x00, 0x00,
        0x00, 0x00, 0x00, 0x00,
        0x00, 0x00],
      io = []\<rparr>"

definition emit :: "event list \<Rightarrow> state \<Rightarrow> state" where
  "emit es s = s\<lparr>io := io s @ es\<rparr>"

subsection \<open>Initialisation\<close>

text \<open>\<open>initBMP\<close>; \<open>begin_ok\<close> is what \<open>bmp.begin(BMP_ADDR)\<close> returns.\<close>

definition initBMP :: "bool \<Rightarrow> state \<Rightarrow> state" where
  "initBMP begin_ok s =
     (let s1 = emit [BmpBegin] s
      in if begin_ok then emit [BmpSetSampling] (s1\<lparr>bmpFound := True\<rparr>) else s1)"

definition initDHT :: "state \<Rightarrow> state" where
  "initDHT s = emit [DhtBegin] s"

text \<open>
  The body of the \<open>for\<close> loop of \<open>initDS\<close>; \<open>found i\<close> is what
  \<open>dsSensors[i].getAddress(deviceAddress, 0)\<close> returns. Nothing is stored in the
  globals of the sketch.
\<close>

definition initDS_body :: "(nat \<Rightarrow> bool) \<Rightarrow> nat \<Rightarrow> state \<Rightarrow> state" where
  "initDS_body found i s =
     (let s1 = emit [DsSetOneWire (int i), DsBegin (int i), DsGetAddress (int i)] s
      in if found i then emit [DsSetResolution (int i)] s1 else s1)"

definition initDS :: "(nat \<Rightarrow> bool) \<Rightarrow> state \<Rightarrow> state" where
  "initDS found s = fold (initDS_body found) [0..<ONE_WIRE_CNT] s"

text \<open>\<open>setup\<close> of the sketch.\<close>

definition setup_fn :: "bool \<Rightarrow> (nat \<Rightarrow> bool) \<Rightarrow> state \<Rightarrow> state" where
  "setup_fn begin_ok found s =
     initDS found (initDHT (initBMP begin_ok (emit [SerialBegin 9600] s)))"

subsection \<open>Sensor reads\<close>

text \<open>\<open>readBMP\<close>; \<open>p\<close> and \<open>t\<close> are what \<open>bmp.readPressure()\<close> and
  \<open>bmp.readTemperature()\<close> return.\<close>

definition readBMP :: "float32 \<Rightarrow> float32 \<Rightarrow> state \<Rightarrow> state" where
  "readBMP p t s =
     (if bmpFound s then
        (let s1 = (emit [BmpReadPressure] s)\<lparr>bmpP := p\<rparr>
         in (emit [BmpReadTemperature] s1)\<lparr>bmpT := t\<rparr>)
      else s)"

text \<open>\<open>readDHT\<close>; \<open>h\<close> and \<open>t\<close> are what \<open>dht.readHumidity()\<close> and
  \<open>dht.readTemperature()\<close> return.\<close>

definition readDHT :: "float32 \<Rightarrow> float32 \<Rightarrow> state \<Rightarrow> state" where
  "readDHT h t s =
     (let s1 = (emit [DhtReadHumidity] s)\<lparr>dhtH := h\<rparr>;
          s2 = (emit [DhtReadTemperature] s1)\<lparr>dhtT := t\<rparr>
      in if isnan (dhtH s2) \<or> isnan (dhtT s2)
         then s2\<lparr>dhtH := EMPTY_VAL, dhtT := EMPTY_VAL\<rparr>
         else s2)"

text \<open>
  \<open>readDS(int index)\<close>; \<open>v\<close> is what \<open>dsSensors[index].getTempCByIndex(0)\<close>
  returns. An index outside the arrays is undefined behaviour in the source and
  \<open>None\<close> here.
\<close>

definition readDS :: "int \<Rightarrow> float32 \<Rightarrow> state \<Rightarrow> state option" where
  "readDS index v s =
     (if 0 \<le> index \<and> index < int ONE_WIRE_CNT then
        (let s1 = emit [DsRequestTemperatures index] s
         in Some ((emit [DsGetTempCByIndex index] s1)\<lparr>dsT := (dsT s1)[nat index := v]\<rparr>))
      else None)"

subsection \<open>Serial communication\<close>

text \<open>
  The object representation of a \<open>float\<close> and of an \<open>unsigned short\<close>, as
  \<open>memcpy\<close> reads it through a \<open>byte*\<close>: least significant byte first.
\<close>

definition float_bytes :: "float32 \<Rightarrow> byte list" where
  "float_bytes w = [ucast w, ucast (drop_bit 8 w), ucast (drop_bit 16 w), ucast (drop_bit 24 w)]"

definition ushort_bytes :: "16 word \<Rightarrow> byte list" where
  "ushort_bytes c = [ucast c, ucast (drop_bit 8 c)]"

text \<open>
  \<open>memcpy(dst + off, src, n)\<close> on a buffer \<open>dst\<close>; a copy that leaves either object
  is undefined behaviour in the source and \<open>None\<close> here.
\<close>

definition memcpy :: "byte list \<Rightarrow> nat \<Rightarrow> byte list \<Rightarrow> nat \<Rightarrow> byte list option" where
  "memcpy dst off src n =
     (if off + n \<le> length dst \<and> n \<le> length src
      then Some (take off dst @ take n src @ drop (off + n) dst)
      else None)"

text \<open>
  The \<open>while (Serial.available() > 0)\<close> loop of \<open>communicate\<close>. Its first argument
  is the sequence of bytes \<open>Serial.read()\<close> returns until \<open>Serial.available()\<close>
  reports an empty buffer.
\<close>

fun drain :: "byte list \<Rightarrow> bool \<Rightarrow> state \<Rightarrow> bool \<times> state" where
  "drain [] sendResponse s = (sendResponse, emit [SerialAvailable] s)"
| "drain (inByte # rx) sendResponse s =
     drain rx (if inByte = 0xDF then True else sendResponse)
       (emit [SerialAvailable, SerialRead inByte] s)"

definition send_response :: "state \<Rightarrow> state option" where
  "send_response s = do {
     b1 \<leftarrow> memcpy (modbusBuf s) 3 (float_bytes (bmpP s)) 4;
     b2 \<leftarrow> memcpy b1 7 (float_bytes (bmpT s)) 4;
     b3 \<leftarrow> memcpy b2 11 (float_bytes (dhtH s)) 4;
     b4 \<leftarrow> memcpy b3 15 (float_bytes (dhtT s)) 4;
     b5 \<leftarrow> memcpy b4 19 (concat (map float_bytes (dsT s))) 12;
     crc \<leftarrow> CRC16 b5 (of_nat (MODBUS_BUF_LEN - 2));
     b6 \<leftarrow> memcpy b5 31 (ushort_bytes crc) 2;
     (if MODBUS_BUF_LEN \<le> length b6
      then Some (emit [SerialWrite (take MODBUS_BUF_LEN b6)] (s\<lparr>modbusBuf := b6\<rparr>))
      else None)
   }"

definition communicate :: "byte list \<Rightarrow> state \<Rightarrow> state option" where
  "communicate rx s =
     (case drain rx False s of
        (sendResponse, s1) \<Rightarrow> if sendResponse then send_response s1 else Some s1)"

subsection \<open>The main loop\<close>

text \<open>
  What the environment supplies during one pass of \<open>loop\<close>: the values the sensor
  libraries return, and the bytes each of the five calls of \<open>communicate\<close> finds in
  the serial buffer.
\<close>

record cycle_input =
  bmp_pressure :: float32
  bmp_temperature :: float32
  dht_humidity :: float32
  dht_temperature :: float32
  ds_temp0 :: float32
  ds_temp1 :: float32
  ds_temp2 :: float32
  rx0 :: "byte list"
  rx1 :: "byte list"
  rx2 :: "byte list"
  rx3 :: "byte list"
  rx4 :: "byte list"

definition loop :: "cycle_input \<Rightarrow> state \<Rightarrow> state option" where
  "loop inp s = do {
     s2 \<leftarrow> communicate (rx0 inp) (readBMP (bmp_pressure inp) (bmp_temperature inp) s);
     s4 \<leftarrow> communicate (rx1 inp) (readDHT (dht_humidity inp) (dht_temperature inp) s2);
     s5 \<leftarrow> readDS 0 (ds_temp0 inp) s4;
     s6 \<leftarrow> communicate (rx2 inp) s5;
     s7 \<leftarrow> readDS 1 (ds_temp1 inp) s6;
     s8 \<leftarrow> communicate (rx3 inp) s7;
     s9 \<leftarrow> readDS 2 (ds_temp2 inp) s8;
     communicate (rx4 inp) s9
   }"

text \<open>\<open>loop\<close> is called again and again; \<open>run\<close> is any finite number of passes.\<close>

fun run :: "cycle_input list \<Rightarrow> state \<Rightarrow> state option" where
  "run [] s = Some s"
| "run (inp # inps) s = (case loop inp s of None \<Rightarrow> None | Some s1 \<Rightarrow> run inps s1)"

subsection \<open>Notions used in the statements\<close>

text \<open>
  The shape of the two arrays, and the three header bytes of \<open>modbusBuf\<close>, which no
  function of the sketch writes.
\<close>

definition wf_state :: "state \<Rightarrow> bool" where
  "wf_state s \<longleftrightarrow>
     length (modbusBuf s) = MODBUS_BUF_LEN \<and>
     take 3 (modbusBuf s) = [0x00, 0x03, 0x1C] \<and>
     length (dsT s) = ONE_WIRE_CNT"

text \<open>The seven readings in channel order, and the variables a frame is built from.\<close>

definition readings :: "state \<Rightarrow> float32 list" where
  "readings s = [bmpP s, bmpT s, dhtH s, dhtT s] @ dsT s"

text \<open>Reading a \<open>float\<close> back from four bytes at an offset of a frame.\<close>

definition bytes_float :: "byte list \<Rightarrow> float32" where
  "bytes_float bs =
     ucast (bs ! 0) OR push_bit 8 (ucast (bs ! 1)) OR
     push_bit 16 (ucast (bs ! 2)) OR push_bit 24 (ucast (bs ! 3))"

definition frame_float :: "byte list \<Rightarrow> nat \<Rightarrow> float32" where
  "frame_float f off = bytes_float (take 4 (drop off f))"

text \<open>The frame \<open>communicate\<close> sends for the readings of a state.\<close>

definition frame_body :: "state \<Rightarrow> byte list" where
  "frame_body s = [0x00, 0x03, 0x1C] @ concat (map float_bytes (readings s))"

definition frame :: "state \<Rightarrow> byte list" where
  "frame s = frame_body s @ ushort_bytes (crc16_ref (frame_body s))"

text \<open>The trace of one call of \<open>communicate\<close>.\<close>

definition drain_events :: "byte list \<Rightarrow> event list" where
  "drain_events rx = concat (map (\<lambda>b. [SerialAvailable, SerialRead b]) rx) @ [SerialAvailable]"

definition handler_events :: "byte list \<Rightarrow> state \<Rightarrow> event list" where
  "handler_events rx s =
     drain_events rx @ (if 0xDF \<in> set rx then [SerialWrite (frame s)] else [])"

text \<open>The frames written to the serial port, in order, read off a trace.\<close>

fun serial_writes :: "event list \<Rightarrow> byte list list" where
  "serial_writes [] = []"
| "serial_writes (SerialWrite f # es) = f # serial_writes es"
| "serial_writes (e # es) = serial_writes es"

text \<open>The sensor calls of one read.\<close>

definition bmp_events :: "state \<Rightarrow> event list" where
  "bmp_events s = (if bmpFound s then [BmpReadPressure, BmpReadTemperature] else [])"

definition dht_events :: "event list" where
  "dht_events = [DhtReadHumidity, DhtReadTemperature]"

definition ds_events :: "int \<Rightarrow> event list" where
  "ds_events index = [DsRequestTemperatures index, DsGetTempCByIndex index]"

text \<open>The calls \<open>initDS\<close> makes for probe \<open>i\<close>.\<close>

definition ds_init_events :: "(nat \<Rightarrow> bool) \<Rightarrow> nat \<Rightarrow> event list" where
  "ds_init_events found i =
     [DsSetOneWire (int i), DsBegin (int i), DsGetAddress (int i)] @
     (if found i then [DsSetResolution (int i)] else [])"

text \<open>
  Two states that agree on the variables the sensor reads and the frame depend on (they
  may differ in \<open>modbusBuf\<close> and in the trace).
\<close>

definition same_vars :: "state \<Rightarrow> state \<Rightarrow> bool" where
  "same_vars s t \<longleftrightarrow>
     bmpFound s = bmpFound t \<and> bmpP s = bmpP t \<and> bmpT s = bmpT t \<and>
     dhtH s = dhtH t \<and> dhtT s = dhtT t \<and> dsT s = dsT t"

text \<open>Concrete inputs: a quiet NaN, probes that are never detected, one pass of the loop.\<close>

definition qnan :: float32 where
  "qnan = 0x7FC00000"

definition none_found :: "nat \<Rightarrow> bool" where
  "none_found i = False"

definition sample_input :: cycle_input where
  "sample_input =
     \<lparr>bmp_pressure = 0x47C5E680, bmp_temperature = 0x41B40000,
      dht_humidity = 0x42340000, dht_temperature = 0x41B00000,
      ds_temp0 = 0x41A0CCCD, ds_temp1 = 0xC2C80000, ds_temp2 = 0x419F3333,
      rx0 = [], rx1 = [0x00, 0x03, 0x00, 0x00, 0x00, 0x0E, 0xC5, 0xDF],
      rx2 = [], rx3 = [0x00, 0x03, 0x00], rx4 = [0xDF]\<rparr>"

subsection \<open>Auxiliary notions for the table proof\<close>

definition table_entry :: "nat \<Rightarrow> 16 word" where
  "table_entry i = push_bit 8 (ucast (crcLoTable ! i)) OR ucast (crcHiTable ! i)"

definition crcTable :: "16 word list" where
  "crcTable = map2 (\<lambda>lo hi. push_bit 8 (ucast lo) OR ucast hi) crcLoTable crcHiTable"

definition pack :: "byte \<Rightarrow> byte \<Rightarrow> 16 word" where
  "pack crcHi crcLo = push_bit 8 (ucast crcHi) OR ucast crcLo"

text \<open>
  The reference is linear over xor, so its 256 table entries are determined by the eight
  entries at the powers of two: \<open>dbl\<close> builds the table from them by doubling.
\<close>

fun dbl :: "16 word list \<Rightarrow> 16 word list \<Rightarrow> 16 word list" where
  "dbl [] acc = acc"
| "dbl (b # bs) acc = dbl bs (acc @ map ((XOR) b) acc)"

definition basis :: "16 word list" where
  "basis = [0xC0C1, 0xC181, 0xC301, 0xC601, 0xCC01, 0xD801, 0xF001, 0xA001]"

section \<open>Properties\<close>

subsection \<open>The tables agree with the reference\<close>

lemma crc8_unfold:
  "(crc_shift ^^ 8) c =
   crc_shift (crc_shift (crc_shift (crc_shift (crc_shift (crc_shift (crc_shift (crc_shift c)))))))"
  by (simp add: eval_nat_numeral)

lemma crcTable_dbl: "dbl basis [0] = crcTable"
  by (simp add: basis_def crcTable_def crcLoTable_def crcHiTable_def)

lemma crc_shift_xor: "crc_shift (a XOR b) = crc_shift a XOR crc_shift b"
  by (simp add: crc_shift_def bit_xor_iff drop_bit_xor ac_simps)

lemma crc_shift_zero: "crc_shift 0 = 0"
  by (simp add: crc_shift_def)

lemma crc_pow_xor: "(crc_shift ^^ n) (a XOR b) = (crc_shift ^^ n) a XOR (crc_shift ^^ n) b"
  by (induction n) (simp_all add: crc_shift_xor)

lemma crc_pow_zero: "(crc_shift ^^ n) 0 = 0"
  by (induction n) (simp_all add: crc_shift_zero)

lemma crc_pow_high: "take_bit n c = 0 \<Longrightarrow> (crc_shift ^^ n) c = drop_bit n c"
proof (induction n)
  case 0
  then show ?case by simp
next
  case (Suc n)
  have nb: "\<not> bit c n"
  proof
    assume b: "bit c n"
    then have "bit (take_bit (Suc n) c) n"
      by (simp add: bit_take_bit_iff)
    with Suc.prems show False by simp
  qed
  have "take_bit n (take_bit (Suc n) c) = take_bit n c"
    by (simp add: take_bit_take_bit)
  with Suc.prems have tb: "take_bit n c = 0"
    by simp
  have "(crc_shift ^^ Suc n) c = crc_shift (drop_bit n c)"
    using Suc.IH [OF tb] by simp
  also have "\<dots> = drop_bit 1 (drop_bit n c)"
    using nb by (simp add: crc_shift_def bit_drop_bit_eq)
  finally show ?case by (simp add: drop_bit_drop_bit)
qed

lemma crc8_split: "(crc_shift ^^ 8) c = (crc_shift ^^ 8) (take_bit 8 c) XOR drop_bit 8 c"
proof -
  let ?h = "c XOR take_bit 8 c"
  have c: "c = take_bit 8 c XOR ?h"
    by (simp add: xor.left_commute)
  have "take_bit 8 ?h = 0"
    by (simp add: take_bit_xor)
  then have "(crc_shift ^^ 8) ?h = drop_bit 8 ?h"
    by (rule crc_pow_high)
  also have "\<dots> = drop_bit 8 c"
    by (simp add: drop_bit_xor drop_bit_take_bit)
  finally have h: "(crc_shift ^^ 8) ?h = drop_bit 8 c" .
  have "(crc_shift ^^ 8) c = (crc_shift ^^ 8) (take_bit 8 c XOR ?h)"
    using c by simp
  also have "\<dots> = (crc_shift ^^ 8) (take_bit 8 c) XOR (crc_shift ^^ 8) ?h"
    by (rule crc_pow_xor)
  finally show ?thesis using h by simp
qed


lemma pow2_xor_word:
  assumes j: "j < 2 ^ k"
  shows "(of_nat (2 ^ k + j) :: 16 word) = 2 ^ k XOR of_nat j"
proof -
  have w: "take_bit k (of_nat j :: 16 word) = of_nat j"
    using j by (simp add: take_bit_of_nat take_bit_nat_eq_self)
  have "(2 ^ k :: 16 word) AND take_bit k (of_nat j) = 0"
    by (rule bit_eqI) (auto simp add: bit_simps)
  then have "(2 ^ k :: 16 word) AND of_nat j = 0"
    by (simp only: w)
  then have "(2 ^ k :: 16 word) + of_nat j = 2 ^ k XOR of_nat j"
    by (rule disjunctive_add_eq_xor)
  then show ?thesis by simp
qed

lemma dbl_inv:
  "length acc = 2 ^ k \<Longrightarrow>
   (\<forall>i<2 ^ k. acc ! i = (crc_shift ^^ 8) (of_nat i)) \<Longrightarrow>
   (\<forall>j<length bs. bs ! j = (crc_shift ^^ 8) (2 ^ (k + j))) \<Longrightarrow>
   length (dbl bs acc) = 2 ^ (k + length bs) \<and>
   (\<forall>i<2 ^ (k + length bs). dbl bs acc ! i = (crc_shift ^^ 8) (of_nat i))"
proof (induction bs arbitrary: acc k)
  case Nil
  then show ?case by simp
next
  case (Cons b bs)
  let ?acc = "acc @ map ((XOR) b) acc"
  have b: "b = (crc_shift ^^ 8) (2 ^ k)"
    using Cons.prems(3) by auto
  have len: "length ?acc = 2 ^ Suc k"
    using Cons.prems(1) by simp
  have ent: "\<forall>i<2 ^ Suc k. ?acc ! i = (crc_shift ^^ 8) (of_nat i)"
  proof (intro allI impI)
    fix i :: nat
    assume i: "i < 2 ^ Suc k"
    show "?acc ! i = (crc_shift ^^ 8) (of_nat i)"
    proof (cases "i < 2 ^ k")
      case True
      then show ?thesis
        using Cons.prems(1,2) by (simp add: nth_append)
    next
      case False
      define j where "j = i - 2 ^ k"
      have j: "j < 2 ^ k" and ij: "i = 2 ^ k + j"
        using i False by (simp_all add: j_def)
      have "?acc ! i = b XOR acc ! j"
        using Cons.prems(1) j by (simp add: nth_append ij)
      also have "\<dots> = (crc_shift ^^ 8) (2 ^ k) XOR (crc_shift ^^ 8) (of_nat j)"
        using Cons.prems(2) j b by simp
      also have "\<dots> = (crc_shift ^^ 8) (2 ^ k XOR of_nat j)"
        by (simp only: crc_pow_xor)
      also have "\<dots> = (crc_shift ^^ 8) (of_nat i)"
        using pow2_xor_word [OF j] by (simp only: ij)
      finally show ?thesis .
    qed
  qed
  have bs: "\<forall>j<length bs. bs ! j = (crc_shift ^^ 8) (2 ^ (Suc k + j))"
  proof (intro allI impI)
    fix j assume "j < length bs"
    then have "(b # bs) ! Suc j = (crc_shift ^^ 8) (2 ^ (k + Suc j))"
      using Cons.prems(3) by (metis Suc_less_eq length_Cons)
    then show "bs ! j = (crc_shift ^^ 8) (2 ^ (Suc k + j))" by simp
  qed
  from Cons.IH [OF len ent bs] show ?case by simp
qed

lemma all_less_8: "(\<forall>j<8::nat. P j) = (P 7 \<and> P 6 \<and> P 5 \<and> P 4 \<and> P 3 \<and> P 2 \<and> P 1 \<and> P 0)"
proof -
  have "(\<forall>j<8::nat. P j) = (\<forall>j<Suc (Suc (Suc (Suc (Suc (Suc (Suc (Suc 0))))))). P j)"
    by (simp add: eval_nat_numeral)
  also have "\<dots> = (P 7 \<and> P 6 \<and> P 5 \<and> P 4 \<and> P 3 \<and> P 2 \<and> P 1 \<and> P 0)"
    by (simp add: All_less_Suc eval_nat_numeral)
  finally show ?thesis .
qed

lemma basis_nth: "\<forall>j<length basis. basis ! j = (crc_shift ^^ 8) (2 ^ (0 + j))"
proof -
  have "\<forall>j<8. basis ! j = (crc_shift ^^ 8) (2 ^ j)"
    unfolding all_less_8 by (simp add: basis_def crc8_unfold crc_shift_def)
  then show ?thesis by (simp add: basis_def)
qed

lemma length_basis: "length basis = 8"
  by (simp add: basis_def)

lemma length_crcHiTable: "length crcHiTable = 256"
  by (simp add: crcHiTable_def)

lemma length_crcLoTable: "length crcLoTable = 256"
  by (simp add: crcLoTable_def)

lemma crcTable_nth: "i < 256 \<Longrightarrow> crcTable ! i = (crc_shift ^^ 8) (of_nat i)"
proof -
  have "\<forall>i<2 ^ (0 + length basis). dbl basis [0] ! i = (crc_shift ^^ 8) (of_nat i)"
    using dbl_inv [of "[0]" 0 basis] basis_nth by (simp add: crc_pow_zero)
  then have "\<forall>i<256. crcTable ! i = (crc_shift ^^ 8) (of_nat i)"
    unfolding crcTable_dbl length_basis by simp
  then show "i < 256 \<Longrightarrow> crcTable ! i = (crc_shift ^^ 8) (of_nat i)"
    by simp
qed

lemma table_entry_crc8: "table_entry (unat (x :: byte)) = (crc_shift ^^ 8) (ucast x)"
proof -
  have lt: "unat x < 256"
    using unsigned_less [of x] by simp
  have "table_entry (unat x) = crcTable ! unat x"
    using lt by (simp add: table_entry_def crcTable_def length_crcHiTable length_crcLoTable)
  then show ?thesis
    using crcTable_nth [OF lt] by simp
qed

lemma byte_bitD: "bit (w :: byte) n \<Longrightarrow> n < 8"
  using bit_imp_le_length [of w n] by simp

lemma take_bit_pack: "take_bit 8 (pack hi lo XOR ucast b) = ucast (lo XOR b)"
  by (rule bit_eqI) (auto simp add: pack_def bit_simps dest: byte_bitD)

lemma drop_bit_pack: "drop_bit 8 (pack hi lo XOR ucast (b :: byte)) = ucast hi"
  by (rule bit_eqI) (auto simp add: pack_def bit_simps dest: byte_bitD)

lemma pack_xor: "pack t1 t0 XOR ucast hi = pack t1 (hi XOR t0)"
  by (rule bit_eqI) (auto simp add: pack_def bit_simps dest: byte_bitD)

lemma crc_step:
  "pack (crcLoTable ! unat (lo XOR b)) (hi XOR crcHiTable ! unat (lo XOR b)) = crc_byte (pack hi lo) b"
proof -
  let ?i = "unat (lo XOR b)"
  have "crc_byte (pack hi lo) b = (crc_shift ^^ 8) (ucast (lo XOR b)) XOR ucast hi"
    unfolding crc_byte_def by (subst crc8_split) (simp only: take_bit_pack drop_bit_pack)
  also have "\<dots> = table_entry ?i XOR ucast hi"
    by (simp only: table_entry_crc8)
  also have "\<dots> = pack (crcLoTable ! ?i) (hi XOR crcHiTable ! ?i)"
    unfolding table_entry_def pack_def [symmetric] by (rule pack_xor)
  finally show ?thesis by simp
qed

lemma CRC16_loop_ref:
  "n \<le> length buf \<Longrightarrow>
   \<exists>hi' lo'. CRC16_loop buf n hi lo = Some (hi', lo') \<and>
     pack hi' lo' = foldl crc_byte (pack hi lo) (take n buf)"
proof (induction buf n hi lo rule: CRC16_loop.induct)
  case (1 buf crcHi crcLo)
  then show ?case by simp
next
  case (2 n crcHi crcLo)
  then show ?case by simp
next
  case (3 b buf n crcHi crcLo)
  then show ?case by (simp add: Let_def crc_step)
qed

lemma CRC16_take:
  assumes "unat len \<le> length buf"
  shows "CRC16 buf len = Some (crc16_ref (take (unat len) buf))"
proof -
  from CRC16_loop_ref [OF assms, of "0xFF" "0xFF"]
  obtain hi' lo' where l: "CRC16_loop buf (unat len) 0xFF 0xFF = Some (hi', lo')"
    and p: "pack hi' lo' = foldl crc_byte (pack 0xFF 0xFF) (take (unat len) buf)"
    by blast
  have "pack 0xFF 0xFF = 0xFFFF" by (simp add: pack_def)
  with l p show ?thesis
    by (simp add: CRC16_def crc16_ref_def pack_def)
qed


lemma crc16_ref_check: "crc16_ref [0x31, 0x32, 0x33, 0x34, 0x35, 0x36, 0x37, 0x38, 0x39] = 0x4B37"
  by (simp add: crc16_ref_def crc_byte_def crc8_unfold crc_shift_def)

lemma CRC16_empty: "CRC16 [] 0 = Some 0xFFFF"
  by (simp add: CRC16_def)

lemma CRC16_single: "CRC16 [0x00] 1 = Some 0x40BF"
  using CRC16_take [of 1 "[0x00]"]
  by (simp add: crc16_ref_def crc_byte_def crc8_unfold crc_shift_def)

text \<open>
  C1. For every byte buffer \<open>b\<close> whose length is a value of \<open>unsigned int\<close>,
  \<open>CRC16(b, len(b))\<close> returns the reference CRC-16 (reflected polynomial \<open>0xA001\<close>,
  initial value \<open>0xFFFF\<close>) of \<open>b\<close>.
\<close>

theorem CRC16_matches_reference:
  assumes "length b < 2 ^ 16"
  shows "CRC16 b (of_nat (length b)) = Some (crc16_ref b)"
proof -
  have "unat (of_nat (length b) :: 16 word) = length b"
    using assms by (simp add: unat_of_nat take_bit_nat_eq_self)
  then show ?thesis using CRC16_take [of "of_nat (length b)" b] by simp
qed

text \<open>The instance at the check string \<open>123456789\<close>, whose CRC-16/MODBUS is \<open>0x4B37\<close>.\<close>

theorem CRC16_matches_reference_witness:
  "length [0x31, 0x32, 0x33, 0x34, 0x35, 0x36, 0x37, 0x38, 0x39 :: byte] < 2 ^ 16 \<and>
   CRC16 [0x31, 0x32, 0x33, 0x34, 0x35, 0x36, 0x37, 0x38, 0x39]
     (of_nat (length [0x31, 0x32, 0x33, 0x34, 0x35, 0x36, 0x37, 0x38, 0x39 :: byte])) = Some 0x4B37"
proof -
  have l: "length [0x31, 0x32, 0x33, 0x34, 0x35, 0x36, 0x37, 0x38, 0x39 :: byte] < 2 ^ 16"
    by simp
  from CRC16_matches_reference [OF l] l show ?thesis
    by (simp only: crc16_ref_check simp_thms)
qed

subsection \<open>Bytes and floats\<close>

lemma length_float_bytes: "length (float_bytes w) = 4"
  by (simp add: float_bytes_def)

lemma length_ushort_bytes: "length (ushort_bytes c) = 2"
  by (simp add: ushort_bytes_def)

lemma bytes_float_float_bytes: "bytes_float (float_bytes w) = w"
proof (rule bit_eqI)
  fix n
  assume "possible_bit TYPE(float32) n"
  then have n: "n < 32" by (simp add: possible_bit_word)
  consider "n < 8" | "8 \<le> n" "n < 16" | "16 \<le> n" "n < 24" | "24 \<le> n"
    by linarith
  then show "bit (bytes_float (float_bytes w)) n = bit w n"
    using n by cases (auto simp add: bytes_float_def float_bytes_def bit_simps)
qed

lemma float_val_EMPTY_VAL: "float_val EMPTY_VAL = Some (- 100)"
  by (simp add: float_val_def EMPTY_VAL_def Let_def)

lemma not_isnan_EMPTY_VAL: "\<not> isnan EMPTY_VAL"
  by (simp add: isnan_def EMPTY_VAL_def)

lemma isnan_qnan: "isnan 0x7FC00000"
  by (simp add: isnan_def)

subsection \<open>The handler\<close>

lemma emit_emit: "emit es (emit ds s) = emit (ds @ es) s"
  by (simp add: emit_def)

lemma drain_eq: "drain rx b s = (b \<or> 0xDF \<in> set rx, emit (drain_events rx) s)"
proof (induction rx arbitrary: b s)
  case Nil
  then show ?case by (simp add: drain_events_def)
next
  case (Cons x rx)
  then show ?case by (auto simp add: drain_events_def emit_emit)
qed

lemma memcpy_app:
  "length pre = off \<Longrightarrow> length old = n \<Longrightarrow> length src = n \<Longrightarrow>
   memcpy (pre @ old @ post) off src n = Some (pre @ src @ post)"
  by (simp add: memcpy_def)

lemma drop_split: "drop k xs = take n (drop k xs) @ drop (k + n) xs"
proof -
  have "drop k xs = take n (drop k xs) @ drop n (drop k xs)"
    by (simp only: append_take_drop_id)
  then show ?thesis by (simp only: drop_drop add.commute)
qed

lemma wf_state_buf:
  assumes "wf_state s"
  obtains r1 r2 r3 r4 r5 r6 where
    "modbusBuf s = [0x00, 0x03, 0x1C] @ r1 @ r2 @ r3 @ r4 @ r5 @ r6"
    "length r1 = 4" "length r2 = 4" "length r3 = 4" "length r4 = 4" "length r5 = 12" "length r6 = 2"
proof -
  let ?b = "modbusBuf s"
  have l: "length ?b = 33" and h: "take 3 ?b = [0x00, 0x03, 0x1C]"
    using assms by (simp_all add: wf_state_def MODBUS_BUF_LEN_def)
  have "?b = take 3 ?b @ drop 3 ?b"
    by simp
  also have "drop 3 ?b = take 4 (drop 3 ?b) @ drop 7 ?b"
    using drop_split [of 3 ?b 4] by simp
  also have "drop 7 ?b = take 4 (drop 7 ?b) @ drop 11 ?b"
    using drop_split [of 7 ?b 4] by simp
  also have "drop 11 ?b = take 4 (drop 11 ?b) @ drop 15 ?b"
    using drop_split [of 11 ?b 4] by simp
  also have "drop 15 ?b = take 4 (drop 15 ?b) @ drop 19 ?b"
    using drop_split [of 15 ?b 4] by simp
  also have "drop 19 ?b = take 12 (drop 19 ?b) @ drop 31 ?b"
    using drop_split [of 19 ?b 12] by simp
  finally have "?b = [0x00, 0x03, 0x1C] @ take 4 (drop 3 ?b) @ take 4 (drop 7 ?b) @
      take 4 (drop 11 ?b) @ take 4 (drop 15 ?b) @ take 12 (drop 19 ?b) @ drop 31 ?b"
    by (simp only: h)
  then show ?thesis
    by (rule that) (simp_all add: l)
qed

lemma length3E:
  assumes "length xs = 3"
  obtains a b c where "xs = [a, b, c]"
  using assms by (auto simp add: length_Suc_conv eval_nat_numeral)

lemma length_frame_body: "length (dsT s) = 3 \<Longrightarrow> length (frame_body s) = 31"
  by (erule length3E) (simp add: frame_body_def readings_def length_float_bytes)

lemma send_response_eq:
  assumes wf: "wf_state s"
  shows "send_response s = Some (emit [SerialWrite (frame s)] (s\<lparr>modbusBuf := frame s\<rparr>))"
proof -
  from wf obtain r1 r2 r3 r4 r5 r6 where
    b: "modbusBuf s = [0x00, 0x03, 0x1C] @ r1 @ r2 @ r3 @ r4 @ r5 @ r6" and
    r: "length r1 = 4" "length r2 = 4" "length r3 = 4" "length r4 = 4" "length r5 = 12" "length r6 = 2"
    by (rule wf_state_buf)
  from wf have "length (dsT s) = 3"
    by (simp add: wf_state_def ONE_WIRE_CNT_def)
  then obtain d0 d1 d2 where d: "dsT s = [d0, d1, d2]"
    by (rule length3E)
  have fb: "frame_body s = [0x00, 0x03, 0x1C] @ float_bytes (bmpP s) @ float_bytes (bmpT s) @
      float_bytes (dhtH s) @ float_bytes (dhtT s) @ float_bytes d0 @ float_bytes d1 @ float_bytes d2"
    by (simp add: frame_body_def readings_def d)
  have lfb: "length (frame_body s) = 31"
    by (simp add: fb length_float_bytes)
  have m1: "memcpy (modbusBuf s) 3 (float_bytes (bmpP s)) 4 =
      Some ([0x00, 0x03, 0x1C] @ float_bytes (bmpP s) @ r2 @ r3 @ r4 @ r5 @ r6)"
    by (simp add: memcpy_def b r length_float_bytes)
  have m2: "memcpy ([0x00, 0x03, 0x1C] @ float_bytes (bmpP s) @ r2 @ r3 @ r4 @ r5 @ r6) 7 (float_bytes (bmpT s)) 4 =
      Some ([0x00, 0x03, 0x1C] @ float_bytes (bmpP s) @ float_bytes (bmpT s) @ r3 @ r4 @ r5 @ r6)"
    by (simp add: memcpy_def r length_float_bytes)
  have m3: "memcpy ([0x00, 0x03, 0x1C] @ float_bytes (bmpP s) @ float_bytes (bmpT s) @ r3 @ r4 @ r5 @ r6) 11
        (float_bytes (dhtH s)) 4 =
      Some ([0x00, 0x03, 0x1C] @ float_bytes (bmpP s) @ float_bytes (bmpT s) @ float_bytes (dhtH s) @ r4 @ r5 @ r6)"
    by (simp add: memcpy_def r length_float_bytes)
  have m4: "memcpy ([0x00, 0x03, 0x1C] @ float_bytes (bmpP s) @ float_bytes (bmpT s) @ float_bytes (dhtH s) @ r4 @ r5 @ r6) 15
        (float_bytes (dhtT s)) 4 =
      Some ([0x00, 0x03, 0x1C] @ float_bytes (bmpP s) @ float_bytes (bmpT s) @ float_bytes (dhtH s) @
        float_bytes (dhtT s) @ r5 @ r6)"
    by (simp add: memcpy_def r length_float_bytes)
  have m5: "memcpy ([0x00, 0x03, 0x1C] @ float_bytes (bmpP s) @ float_bytes (bmpT s) @ float_bytes (dhtH s) @
        float_bytes (dhtT s) @ r5 @ r6) 19 (concat (map float_bytes (dsT s))) 12 =
      Some (frame_body s @ r6)"
    by (simp add: memcpy_def r length_float_bytes fb d)
  have c: "CRC16 (frame_body s @ r6) (of_nat (MODBUS_BUF_LEN - 2)) = Some (crc16_ref (frame_body s))"
    using CRC16_take [of 31 "frame_body s @ r6"] by (simp add: MODBUS_BUF_LEN_def lfb)
  have m6: "memcpy (frame_body s @ r6) 31 (ushort_bytes (crc16_ref (frame_body s))) 2 = Some (frame s)"
    by (simp add: memcpy_def r lfb length_ushort_bytes frame_def)
  have lf: "length (frame s) = 33"
    by (simp add: frame_def lfb length_ushort_bytes)
  have "send_response s =
      (if MODBUS_BUF_LEN \<le> length (frame s)
       then Some (emit [SerialWrite (take MODBUS_BUF_LEN (frame s))] (s\<lparr>modbusBuf := frame s\<rparr>))
       else None)"
    unfolding send_response_def by (simp only: m1 m2 m3 m4 m5 c m6 Option.bind.bind_lunit)
  then show ?thesis
    by (simp add: lf MODBUS_BUF_LEN_def)
qed

lemma serial_writes_append: "serial_writes (xs @ ys) = serial_writes xs @ serial_writes ys"
  by (induction xs rule: serial_writes.induct) simp_all

lemma serial_writes_drain_events: "serial_writes (drain_events rx) = []"
  by (induction rx) (simp_all add: drain_events_def)

lemma wf_state_emit: "wf_state (emit es s) = wf_state s"
  by (simp add: wf_state_def emit_def)

lemma frame_emit: "frame (emit es s) = frame s"
  by (simp add: frame_def frame_body_def readings_def emit_def)

lemma length_frame: "wf_state s \<Longrightarrow> length (frame s) = 33"
  by (simp add: frame_def length_frame_body length_ushort_bytes wf_state_def ONE_WIRE_CNT_def)

lemma communicate_eq:
  assumes "wf_state s"
  shows "communicate rx s =
    Some (if 0xDF \<in> set rx
          then emit [SerialWrite (frame s)] ((emit (drain_events rx) s)\<lparr>modbusBuf := frame s\<rparr>)
          else emit (drain_events rx) s)"
  using assms
  by (simp add: communicate_def drain_eq send_response_eq wf_state_emit frame_emit)

lemma communicate_io:
  assumes "wf_state s"
  shows "\<exists>s'. communicate rx s = Some s' \<and> io s' = io s @ handler_events rx s \<and>
     bmpFound s' = bmpFound s \<and> bmpP s' = bmpP s \<and> bmpT s' = bmpT s \<and>
     dhtH s' = dhtH s \<and> dhtT s' = dhtT s \<and> dsT s' = dsT s \<and>
     modbusBuf s' = (if 0xDF \<in> set rx then frame s else modbusBuf s)"
  by (simp add: communicate_eq [OF assms] handler_events_def emit_def)

lemma take3_frame: "take 3 (frame s) = [0x00, 0x03, 0x1C]"
  by (simp add: frame_def frame_body_def)

lemma wf_state_frame: "wf_state s \<Longrightarrow> wf_state (s\<lparr>modbusBuf := frame s\<rparr>)"
  using length_frame [of s] by (simp add: wf_state_def take3_frame MODBUS_BUF_LEN_def)

lemma communicate_wf:
  assumes "wf_state s" "communicate rx s = Some s'"
  shows "wf_state s'"
proof -
  have "wf_state (emit [SerialWrite (frame s)] ((emit (drain_events rx) s)\<lparr>modbusBuf := frame s\<rparr>))"
    using assms(1) wf_state_frame [of s] by (simp add: wf_state_def emit_def)
  then show ?thesis
    using assms by (auto simp add: communicate_eq wf_state_emit split: if_splits)
qed

lemma wf_initial_state: "wf_state initial_state"
  by (simp add: wf_state_def initial_state_def MODBUS_BUF_LEN_def ONE_WIRE_CNT_def)

text \<open>
  C4. For every byte sequence drained in one call of \<open>communicate\<close>: if it contains
  \<open>0xDF\<close> anywhere, exactly one frame of 33 bytes is written to the serial port; if it
  contains no \<open>0xDF\<close>, nothing is written.
\<close>

theorem communicate_trigger:
  assumes "wf_state s"
  shows "\<exists>s'. communicate rx s = Some s' \<and>
    (if 0xDF \<in> set rx
     then \<exists>f. length f = 33 \<and> serial_writes (io s') = serial_writes (io s) @ [f]
     else serial_writes (io s') = serial_writes (io s))"
proof -
  from communicate_io [OF assms, of rx] obtain s' where
    c: "communicate rx s = Some s'" and i: "io s' = io s @ handler_events rx s"
    by blast
  have "serial_writes (handler_events rx s) = (if 0xDF \<in> set rx then [frame s] else [])"
    by (simp add: handler_events_def serial_writes_append serial_writes_drain_events)
  then show ?thesis
    using c i length_frame [OF assms] by (auto simp add: serial_writes_append)
qed

theorem communicate_trigger_witness:
  "wf_state initial_state \<and>
   (\<exists>s'. communicate [0x01, 0x02, 0xDF] initial_state = Some s' \<and>
     (\<exists>f. length f = 33 \<and> serial_writes (io s') = serial_writes (io initial_state) @ [f])) \<and>
   (\<exists>s'. communicate [0x00, 0x03, 0x00] initial_state = Some s' \<and>
     serial_writes (io s') = serial_writes (io initial_state))"
  using communicate_trigger [OF wf_initial_state, of "[0x01, 0x02, 0xDF]"]
    communicate_trigger [OF wf_initial_state, of "[0x00, 0x03, 0x00]"] wf_initial_state
  by simp

lemma communicate_send:
  assumes "wf_state s" "0xDF \<in> set rx"
  shows "\<exists>s'. communicate rx s = Some s' \<and>
    serial_writes (io s') = serial_writes (io s) @ [frame s]"
  using assms
  by (simp add: communicate_eq emit_def serial_writes_append serial_writes_drain_events)

lemma frame_crc:
  assumes "wf_state s"
  shows "CRC16 (take 31 (frame s)) 31 = Some (crc16_ref (frame_body s))"
    and "drop 31 (frame s) = ushort_bytes (crc16_ref (frame_body s))"
    and "take 31 (frame s) = frame_body s"
proof -
  have l: "length (frame_body s) = 31"
    using assms by (simp add: length_frame_body wf_state_def ONE_WIRE_CNT_def)
  show t: "take 31 (frame s) = frame_body s"
    by (simp add: frame_def l)
  show "CRC16 (take 31 (frame s)) 31 = Some (crc16_ref (frame_body s))"
    using CRC16_take [of 31 "frame_body s"] by (simp add: t l)
  show "drop 31 (frame s) = ushort_bytes (crc16_ref (frame_body s))"
    by (simp add: frame_def l)
qed

lemma frame_layout:
  assumes "wf_state s"
  shows "take 4 (drop 3 (frame s)) = float_bytes (bmpP s)"
    and "take 4 (drop 7 (frame s)) = float_bytes (bmpT s)"
    and "take 4 (drop 11 (frame s)) = float_bytes (dhtH s)"
    and "take 4 (drop 15 (frame s)) = float_bytes (dhtT s)"
    and "take 4 (drop 19 (frame s)) = float_bytes (dsT s ! 0)"
    and "take 4 (drop 23 (frame s)) = float_bytes (dsT s ! 1)"
    and "take 4 (drop 27 (frame s)) = float_bytes (dsT s ! 2)"
proof -
  from assms have "length (dsT s) = 3"
    by (simp add: wf_state_def ONE_WIRE_CNT_def)
  then obtain d0 d1 d2 where d: "dsT s = [d0, d1, d2]"
    by (rule length3E)
  show "take 4 (drop 3 (frame s)) = float_bytes (bmpP s)"
    and "take 4 (drop 7 (frame s)) = float_bytes (bmpT s)"
    and "take 4 (drop 11 (frame s)) = float_bytes (dhtH s)"
    and "take 4 (drop 15 (frame s)) = float_bytes (dhtT s)"
    and "take 4 (drop 19 (frame s)) = float_bytes (dsT s ! 0)"
    and "take 4 (drop 23 (frame s)) = float_bytes (dsT s ! 1)"
    and "take 4 (drop 27 (frame s)) = float_bytes (dsT s ! 2)"
    by (simp_all add: frame_def frame_body_def readings_def d length_float_bytes)
qed

lemma frame_floats:
  assumes "wf_state s"
  shows "map (frame_float (frame s)) [3, 7, 11, 15, 19, 23, 27] = readings s"
proof -
  from assms have "length (dsT s) = 3"
    by (simp add: wf_state_def ONE_WIRE_CNT_def)
  then obtain d0 d1 d2 where d: "dsT s = [d0, d1, d2]"
    by (rule length3E)
  show ?thesis
    using frame_layout [OF assms]
    by (simp add: frame_float_def bytes_float_float_bytes readings_def d)
qed

text \<open>
  C5. In every frame that is sent, bytes 31 and 32 are the low and the high byte of
  \<open>CRC16\<close> over the first 31 bytes of that frame, and byte 2 is the constant 28,
  whatever the readings are.
\<close>

theorem frame_checksum:
  assumes "wf_state s" "0xDF \<in> set rx"
  shows "\<exists>s' f crc. communicate rx s = Some s' \<and>
    serial_writes (io s') = serial_writes (io s) @ [f] \<and>
    CRC16 (take 31 f) 31 = Some crc \<and>
    f ! 31 = ucast crc \<and> f ! 32 = ucast (drop_bit 8 crc) \<and>
    f ! 2 = 28"
proof -
  from communicate_send [OF assms] obtain s' where
    c: "communicate rx s = Some s'" and
    w: "serial_writes (io s') = serial_writes (io s) @ [frame s]"
    by blast
  let ?crc = "crc16_ref (frame_body s)"
  have l: "length (frame_body s) = 31"
    using assms(1) by (simp add: length_frame_body wf_state_def ONE_WIRE_CNT_def)
  have "frame s ! 31 = ucast ?crc" "frame s ! 32 = ucast (drop_bit 8 ?crc)"
    by (simp_all add: frame_def nth_append l ushort_bytes_def)
  moreover have "frame s ! 2 = 28"
    by (simp add: frame_def frame_body_def)
  ultimately show ?thesis
    using c w frame_crc(1) [OF assms(1)] by blast
qed

theorem frame_checksum_witness:
  "wf_state initial_state \<and> 0xDF \<in> set [0xDF :: byte] \<and>
   (\<exists>s' f crc. communicate [0xDF] initial_state = Some s' \<and>
    serial_writes (io s') = serial_writes (io initial_state) @ [f] \<and>
    CRC16 (take 31 f) 31 = Some crc \<and>
    f ! 31 = ucast crc \<and> f ! 32 = ucast (drop_bit 8 crc) \<and>
    f ! 2 = 28)"
proof -
  have m: "0xDF \<in> set [0xDF :: byte]" by simp
  from frame_checksum [OF wf_initial_state m] wf_initial_state m show ?thesis
    by blast
qed

text \<open>
  C6. Every frame that is sent is 33 bytes long and starts with \<open>0x00\<close>, \<open>0x03\<close>,
  \<open>0x1C\<close>, whatever the readings are.
\<close>

theorem frame_header:
  assumes "wf_state s" "0xDF \<in> set rx"
  shows "\<exists>s' f. communicate rx s = Some s' \<and>
    serial_writes (io s') = serial_writes (io s) @ [f] \<and>
    length f = 33 \<and> take 3 f = [0x00, 0x03, 0x1C]"
  using communicate_send [OF assms] length_frame [OF assms(1)] take3_frame [of s]
  by blast

theorem frame_header_witness:
  "wf_state initial_state \<and> 0xDF \<in> set [0x01, 0x02, 0xDF :: byte] \<and>
   (\<exists>s' f. communicate [0x01, 0x02, 0xDF] initial_state = Some s' \<and>
    serial_writes (io s') = serial_writes (io initial_state) @ [f] \<and>
    length f = 33 \<and> take 3 f = [0x00, 0x03, 0x1C])"
proof -
  have m: "0xDF \<in> set [0x01, 0x02, 0xDF :: byte]" by simp
  from frame_header [OF wf_initial_state m] wf_initial_state m show ?thesis
    by blast
qed

text \<open>
  C7. A frame carries the seven readings as four bytes each, least significant byte first,
  at offsets 3, 7, 11, 15, 19, 23 and 27, in the order \<open>bmpP\<close>, \<open>bmpT\<close>, \<open>dhtH\<close>,
  \<open>dhtT\<close>, \<open>dsT[0]\<close>, \<open>dsT[1]\<close>, \<open>dsT[2]\<close>; reading the seven floats back from
  the frame gives the stored readings, so seven times \<open>-100.0\<close> when every channel holds
  the sentinel.
\<close>

theorem frame_payload_layout:
  assumes "wf_state s" "0xDF \<in> set rx"
  shows "\<exists>s' f. communicate rx s = Some s' \<and>
    serial_writes (io s') = serial_writes (io s) @ [f] \<and>
    take 4 (drop 3 f) = float_bytes (bmpP s) \<and>
    take 4 (drop 7 f) = float_bytes (bmpT s) \<and>
    take 4 (drop 11 f) = float_bytes (dhtH s) \<and>
    take 4 (drop 15 f) = float_bytes (dhtT s) \<and>
    take 4 (drop 19 f) = float_bytes (dsT s ! 0) \<and>
    take 4 (drop 23 f) = float_bytes (dsT s ! 1) \<and>
    take 4 (drop 27 f) = float_bytes (dsT s ! 2) \<and>
    map (frame_float f) [3, 7, 11, 15, 19, 23, 27] = readings s \<and>
    (readings s = replicate 7 EMPTY_VAL \<longrightarrow>
       map (\<lambda>off. float_val (frame_float f off)) [3, 7, 11, 15, 19, 23, 27] =
       replicate 7 (Some (- 100)))"
proof -
  from communicate_send [OF assms] obtain s' where
    c: "communicate rx s = Some s'" and
    w: "serial_writes (io s') = serial_writes (io s) @ [frame s]"
    by blast
  have fl: "map (frame_float (frame s)) [3, 7, 11, 15, 19, 23, 27] = readings s"
    by (rule frame_floats [OF assms(1)])
  have "map (\<lambda>off. float_val (frame_float (frame s) off)) [3, 7, 11, 15, 19, 23, 27] =
      map float_val (map (frame_float (frame s)) [3, 7, 11, 15, 19, 23, 27])"
    by simp
  also have "\<dots> = map float_val (readings s)"
    by (simp only: fl)
  finally have "readings s = replicate 7 EMPTY_VAL \<longrightarrow>
      map (\<lambda>off. float_val (frame_float (frame s) off)) [3, 7, 11, 15, 19, 23, 27] =
      replicate 7 (Some (- 100))"
    by (simp add: float_val_EMPTY_VAL)
  then show ?thesis
    using c w fl frame_layout [OF assms(1)] by blast
qed

lemma readings_initial_state: "readings initial_state = replicate 7 EMPTY_VAL"
  by (simp add: readings_def initial_state_def eval_nat_numeral)

theorem frame_payload_layout_witness:
  "wf_state initial_state \<and> 0xDF \<in> set [0xDF :: byte] \<and>
   readings initial_state = replicate 7 EMPTY_VAL \<and>
   (\<exists>s' f. communicate [0xDF] initial_state = Some s' \<and>
      serial_writes (io s') = serial_writes (io initial_state) @ [f] \<and>
      map (frame_float f) [3, 7, 11, 15, 19, 23, 27] = replicate 7 EMPTY_VAL \<and>
      map (\<lambda>off. float_val (frame_float f off)) [3, 7, 11, 15, 19, 23, 27] =
        replicate 7 (Some (- 100)))"
proof -
  have m: "0xDF \<in> set [0xDF :: byte]" by simp
  from frame_payload_layout [OF wf_initial_state m] obtain s' f where
    "communicate [0xDF] initial_state = Some s'"
    "serial_writes (io s') = serial_writes (io initial_state) @ [f]"
    "map (frame_float f) [3, 7, 11, 15, 19, 23, 27] = readings initial_state"
    "readings initial_state = replicate 7 EMPTY_VAL \<longrightarrow>
       map (\<lambda>off. float_val (frame_float f off)) [3, 7, 11, 15, 19, 23, 27] =
       replicate 7 (Some (- 100))"
    by blast
  then show ?thesis
    using wf_initial_state m readings_initial_state by auto
qed

text \<open>
  C9. \<open>communicate\<close> leaves \<open>bmpP\<close>, \<open>bmpT\<close>, \<open>dhtH\<close>, \<open>dhtT\<close> and \<open>dsT\<close>
  as they are, for every drained byte sequence, whether or not a frame is sent.
\<close>

theorem communicate_keeps_readings:
  assumes "wf_state s"
  shows "\<exists>s'. communicate rx s = Some s' \<and>
    bmpP s' = bmpP s \<and> bmpT s' = bmpT s \<and> dhtH s' = dhtH s \<and> dhtT s' = dhtT s \<and>
    dsT s' = dsT s"
  using communicate_io [OF assms, of rx] by blast

theorem communicate_keeps_readings_witness:
  "wf_state initial_state \<and>
   (\<exists>s'. communicate [0x00, 0xDF] initial_state = Some s' \<and>
    bmpP s' = bmpP initial_state \<and> bmpT s' = bmpT initial_state \<and>
    dhtH s' = dhtH initial_state \<and> dhtT s' = dhtT initial_state \<and>
    dsT s' = dsT initial_state)"
  using communicate_keeps_readings [OF wf_initial_state, of "[0x00, 0xDF]"] wf_initial_state
  by blast

subsection \<open>Sensor reads and the main loop\<close>

lemma same_vars_refl: "same_vars s s"
  by (simp add: same_vars_def)

lemma same_vars_frame: "same_vars s t \<Longrightarrow> frame s = frame t"
  by (simp add: same_vars_def frame_def frame_body_def readings_def)

lemma same_vars_handler_events: "same_vars s t \<Longrightarrow> handler_events rx s = handler_events rx t"
  by (simp add: handler_events_def same_vars_frame)

lemma same_vars_readings: "same_vars s t \<Longrightarrow> readings s = readings t"
  by (simp add: same_vars_def readings_def)

lemma readBMP_io: "io (readBMP p t s) = io s @ bmp_events s"
  by (simp add: readBMP_def bmp_events_def emit_def Let_def)

lemma readBMP_same: "same_vars s u \<Longrightarrow> same_vars (readBMP p t s) (readBMP p t u)"
  by (simp add: same_vars_def readBMP_def emit_def Let_def)

lemma readBMP_wf: "wf_state (readBMP p t s) = wf_state s"
  by (simp add: wf_state_def readBMP_def emit_def Let_def)

lemma readDHT_io: "io (readDHT h t s) = io s @ dht_events"
  by (simp add: readDHT_def dht_events_def emit_def Let_def)

lemma readDHT_same: "same_vars s u \<Longrightarrow> same_vars (readDHT h t s) (readDHT h t u)"
  by (simp add: same_vars_def readDHT_def emit_def Let_def)

lemma readDHT_wf: "wf_state (readDHT h t s) = wf_state s"
  by (simp add: wf_state_def readDHT_def emit_def Let_def)

lemma readDS_eq:
  "0 \<le> index \<Longrightarrow> index < 3 \<Longrightarrow>
   readDS index v s = Some (s\<lparr>dsT := (dsT s)[nat index := v], io := io s @ ds_events index\<rparr>)"
  by (simp add: readDS_def ONE_WIRE_CNT_def emit_def Let_def ds_events_def)

lemma communicate_same:
  assumes "wf_state s"
  shows "\<exists>s'. communicate rx s = Some s' \<and> same_vars s' s \<and> wf_state s' \<and>
     io s' = io s @ handler_events rx s"
proof -
  from communicate_io [OF assms, of rx] obtain s' where
    c: "communicate rx s = Some s'" and r: "io s' = io s @ handler_events rx s"
      "bmpFound s' = bmpFound s" "bmpP s' = bmpP s" "bmpT s' = bmpT s"
      "dhtH s' = dhtH s" "dhtT s' = dhtT s" "dsT s' = dsT s"
    by blast
  from communicate_wf [OF assms c] c r show ?thesis
    by (simp add: same_vars_def)
qed

lemma readDS_step:
  assumes "wf_state s" "same_vars s u" "0 \<le> index" "index < 3"
  shows "\<exists>s' u'. readDS index v s = Some s' \<and> readDS index v u = Some u' \<and>
     same_vars s' u' \<and> wf_state s' \<and> io s' = io s @ ds_events index"
  using assms
  by (simp add: readDS_eq same_vars_def wf_state_def)

lemma same_vars_trans: "same_vars s t \<Longrightarrow> same_vars t u \<Longrightarrow> same_vars s u"
  by (simp add: same_vars_def)

lemma communicate_step:
  assumes "wf_state s" "same_vars s u"
  shows "\<exists>s'. communicate rx s = Some s' \<and> same_vars s' u \<and> wf_state s' \<and>
     io s' = io s @ handler_events rx u"
proof -
  from communicate_same [OF assms(1), of rx] obtain s' where
    "communicate rx s = Some s'" "same_vars s' s" "wf_state s'"
    "io s' = io s @ handler_events rx s"
    by blast
  then show ?thesis
    using assms(2) same_vars_trans [of s' s u] same_vars_handler_events [of s u rx]
    by simp
qed

lemma loop_eq:
  assumes wf: "wf_state s"
  shows "\<exists>a b c d e s'.
    a = readBMP (bmp_pressure inp) (bmp_temperature inp) s \<and>
    b = readDHT (dht_humidity inp) (dht_temperature inp) a \<and>
    readDS 0 (ds_temp0 inp) b = Some c \<and>
    readDS 1 (ds_temp1 inp) c = Some d \<and>
    readDS 2 (ds_temp2 inp) d = Some e \<and>
    loop inp s = Some s' \<and> same_vars s' e \<and> wf_state s' \<and>
    io s' = io s @ bmp_events s @ handler_events (rx0 inp) a @
      dht_events @ handler_events (rx1 inp) b @
      ds_events 0 @ handler_events (rx2 inp) c @
      ds_events 1 @ handler_events (rx3 inp) d @
      ds_events 2 @ handler_events (rx4 inp) e"
proof -
  define a where "a = readBMP (bmp_pressure inp) (bmp_temperature inp) s"
  define b where "b = readDHT (dht_humidity inp) (dht_temperature inp) a"
  have wa: "wf_state a" and ia: "io a = io s @ bmp_events s"
    using wf by (simp_all add: a_def readBMP_wf readBMP_io)
  from communicate_step [OF wa same_vars_refl, of "rx0 inp"] obtain s2 where
    c2: "communicate (rx0 inp) a = Some s2" and v2: "same_vars s2 a" and w2: "wf_state s2"
    and i2: "io s2 = io a @ handler_events (rx0 inp) a"
    by blast
  define s3 where "s3 = readDHT (dht_humidity inp) (dht_temperature inp) s2"
  have v3: "same_vars s3 b" and w3: "wf_state s3" and i3: "io s3 = io s2 @ dht_events"
    using v2 w2 by (simp_all add: s3_def b_def readDHT_same readDHT_wf readDHT_io)
  from communicate_step [OF w3 v3, of "rx1 inp"] obtain s4 where
    c4: "communicate (rx1 inp) s3 = Some s4" and v4: "same_vars s4 b" and w4: "wf_state s4"
    and i4: "io s4 = io s3 @ handler_events (rx1 inp) b"
    by blast
  from readDS_step [OF w4 v4, of 0 "ds_temp0 inp"] obtain s5 c where
    r5: "readDS 0 (ds_temp0 inp) s4 = Some s5" and rc: "readDS 0 (ds_temp0 inp) b = Some c"
    and v5: "same_vars s5 c" and w5: "wf_state s5" and i5: "io s5 = io s4 @ ds_events 0"
    by auto
  from communicate_step [OF w5 v5, of "rx2 inp"] obtain s6 where
    c6: "communicate (rx2 inp) s5 = Some s6" and v6: "same_vars s6 c" and w6: "wf_state s6"
    and i6: "io s6 = io s5 @ handler_events (rx2 inp) c"
    by blast
  from readDS_step [OF w6 v6, of 1 "ds_temp1 inp"] obtain s7 d where
    r7: "readDS 1 (ds_temp1 inp) s6 = Some s7" and rd: "readDS 1 (ds_temp1 inp) c = Some d"
    and v7: "same_vars s7 d" and w7: "wf_state s7" and i7: "io s7 = io s6 @ ds_events 1"
    by auto
  from communicate_step [OF w7 v7, of "rx3 inp"] obtain s8 where
    c8: "communicate (rx3 inp) s7 = Some s8" and v8: "same_vars s8 d" and w8: "wf_state s8"
    and i8: "io s8 = io s7 @ handler_events (rx3 inp) d"
    by blast
  from readDS_step [OF w8 v8, of 2 "ds_temp2 inp"] obtain s9 e where
    r9: "readDS 2 (ds_temp2 inp) s8 = Some s9" and re: "readDS 2 (ds_temp2 inp) d = Some e"
    and v9: "same_vars s9 e" and w9: "wf_state s9" and i9: "io s9 = io s8 @ ds_events 2"
    by auto
  from communicate_step [OF w9 v9, of "rx4 inp"] obtain s10 where
    c10: "communicate (rx4 inp) s9 = Some s10" and v10: "same_vars s10 e" and w10: "wf_state s10"
    and i10: "io s10 = io s9 @ handler_events (rx4 inp) e"
    by blast
  have l: "loop inp s = Some s10"
    using c2 c4 r5 c6 r7 c8 r9 c10
    by (simp add: loop_def a_def [symmetric] s3_def [symmetric])
  have i: "io s10 = io s @ bmp_events s @ handler_events (rx0 inp) a @
      dht_events @ handler_events (rx1 inp) b @
      ds_events 0 @ handler_events (rx2 inp) c @
      ds_events 1 @ handler_events (rx3 inp) d @
      ds_events 2 @ handler_events (rx4 inp) e"
    by (simp only: i10 i9 i8 i7 i6 i5 i4 i3 i2 ia append_assoc)
  from a_def b_def rc rd re l v10 w10 i show ?thesis
    by blast
qed

text \<open>
  C8. One pass of \<open>loop\<close> returns, and its trace is, in this order: the pressure read,
  a call of \<open>communicate\<close>, the humidity read, a call of \<open>communicate\<close>, and for each
  of the probes 0, 1, 2 its read followed by a call of \<open>communicate\<close>. A frame sent by
  one of these calls is the frame of the readings as they are after the sensor read just
  before it (\<open>a\<close>, \<open>b\<close>, \<open>c\<close>, \<open>d\<close>, \<open>e\<close> below).
\<close>

theorem loop_step_sequence:
  assumes "wf_state s"
  shows "\<exists>a b c d e s'.
    a = readBMP (bmp_pressure inp) (bmp_temperature inp) s \<and>
    b = readDHT (dht_humidity inp) (dht_temperature inp) a \<and>
    readDS 0 (ds_temp0 inp) b = Some c \<and>
    readDS 1 (ds_temp1 inp) c = Some d \<and>
    readDS 2 (ds_temp2 inp) d = Some e \<and>
    loop inp s = Some s' \<and>
    io s' = io s @ bmp_events s @ handler_events (rx0 inp) a @
      dht_events @ handler_events (rx1 inp) b @
      ds_events 0 @ handler_events (rx2 inp) c @
      ds_events 1 @ handler_events (rx3 inp) d @
      ds_events 2 @ handler_events (rx4 inp) e \<and>
    readings s' = readings e"
proof -
  from loop_eq [OF assms, of inp] obtain a b c d e s' where
    "a = readBMP (bmp_pressure inp) (bmp_temperature inp) s"
    "b = readDHT (dht_humidity inp) (dht_temperature inp) a"
    "readDS 0 (ds_temp0 inp) b = Some c"
    "readDS 1 (ds_temp1 inp) c = Some d"
    "readDS 2 (ds_temp2 inp) d = Some e"
    "loop inp s = Some s'" "same_vars s' e"
    "io s' = io s @ bmp_events s @ handler_events (rx0 inp) a @
      dht_events @ handler_events (rx1 inp) b @
      ds_events 0 @ handler_events (rx2 inp) c @
      ds_events 1 @ handler_events (rx3 inp) d @
      ds_events 2 @ handler_events (rx4 inp) e"
    by blast
  moreover from this have "readings s' = readings e"
    by (simp add: same_vars_readings)
  ultimately show ?thesis by blast
qed

theorem loop_step_sequence_witness:
  "wf_state initial_state \<and>
   (\<exists>a b c d e s'.
    a = readBMP (bmp_pressure sample_input) (bmp_temperature sample_input) initial_state \<and>
    b = readDHT (dht_humidity sample_input) (dht_temperature sample_input) a \<and>
    readDS 0 (ds_temp0 sample_input) b = Some c \<and>
    readDS 1 (ds_temp1 sample_input) c = Some d \<and>
    readDS 2 (ds_temp2 sample_input) d = Some e \<and>
    loop sample_input initial_state = Some s' \<and>
    io s' = io initial_state @ bmp_events initial_state @ handler_events (rx0 sample_input) a @
      dht_events @ handler_events (rx1 sample_input) b @
      ds_events 0 @ handler_events (rx2 sample_input) c @
      ds_events 1 @ handler_events (rx3 sample_input) d @
      ds_events 2 @ handler_events (rx4 sample_input) e \<and>
    readings s' = readings e)"
  using loop_step_sequence [OF wf_initial_state, of sample_input] wf_initial_state
  by blast

lemma fold_initDS_body:
  "fold (initDS_body found) xs s = emit (concat (map (ds_init_events found) xs)) s"
proof (induction xs arbitrary: s)
  case Nil
  then show ?case by (simp add: emit_def)
next
  case (Cons x xs)
  have "initDS_body found x s = emit (ds_init_events found x) s"
    by (simp add: initDS_body_def ds_init_events_def emit_emit Let_def)
  then show ?case
    using Cons.IH by (simp add: emit_emit)
qed

lemma setup_fn_eq:
  "setup_fn begin_ok found s =
     emit ([SerialBegin 9600, BmpBegin] @ (if begin_ok then [BmpSetSampling] else []) @ [DhtBegin] @
           concat (map (ds_init_events found) [0..<ONE_WIRE_CNT]))
       (if begin_ok then s\<lparr>bmpFound := True\<rparr> else s)"
  by (simp add: setup_fn_def initDS_def fold_initDS_body initDHT_def initBMP_def Let_def emit_def)

text \<open>
  \<open>wf_state\<close> holds after \<open>setup\<close> and after every pass of \<open>loop\<close>, which always
  returns; it does not constrain the readings.
\<close>

lemma setup_fn_wf: "wf_state (setup_fn begin_ok found initial_state)"
  using wf_initial_state by (simp add: setup_fn_eq wf_state_def emit_def)

lemma run_wf:
  assumes "wf_state s"
  shows "\<exists>s'. run inps s = Some s' \<and> wf_state s'"
  using assms
proof (induction inps arbitrary: s)
  case Nil
  then show ?case by simp
next
  case (Cons inp inps)
  from loop_eq [OF Cons.prems, of inp] obtain s1 where
    l: "loop inp s = Some s1" and w: "wf_state s1"
    by blast
  from Cons.IH [OF w] l show ?case by simp
qed

lemma reachable_wf:
  "\<exists>s'. run inps (setup_fn begin_ok found initial_state) = Some s' \<and> wf_state s'"
  by (rule run_wf [OF setup_fn_wf])

lemma wf_state_any_readings:
  "wf_state (initial_state\<lparr>bmpP := p, bmpT := t, dhtH := h, dhtT := u, dsT := [x, y, z]\<rparr>)"
  by (simp add: wf_state_def initial_state_def MODBUS_BUF_LEN_def ONE_WIRE_CNT_def)

lemma handler_events_no_bmp:
  "BmpReadPressure \<notin> set (handler_events rx s)" "BmpReadTemperature \<notin> set (handler_events rx s)"
  by (auto simp add: handler_events_def drain_events_def)

lemma ds_init_events_no_bmp:
  "BmpReadPressure \<notin> set (ds_init_events found i)"
  "BmpReadTemperature \<notin> set (ds_init_events found i)"
  by (simp_all add: ds_init_events_def)

lemma readDS_vars:
  assumes "readDS index v s = Some s'"
  shows "bmpFound s' = bmpFound s" "bmpP s' = bmpP s" "bmpT s' = bmpT s"
  using assms by (auto simp add: readDS_def emit_def Let_def split: if_splits)

lemma readDHT_vars:
  "bmpFound (readDHT h t s) = bmpFound s" "bmpP (readDHT h t s) = bmpP s" "bmpT (readDHT h t s) = bmpT s"
  by (simp_all add: readDHT_def emit_def Let_def)

lemma readBMP_absent: "\<not> bmpFound s \<Longrightarrow> readBMP p t s = s"
  by (simp add: readBMP_def)

lemma loop_bmp_absent:
  assumes "wf_state s" "\<not> bmpFound s"
  shows "\<exists>s'. loop inp s = Some s' \<and> wf_state s' \<and> \<not> bmpFound s' \<and>
    bmpP s' = bmpP s \<and> bmpT s' = bmpT s \<and>
    (BmpReadPressure \<in> set (io s') \<longleftrightarrow> BmpReadPressure \<in> set (io s)) \<and>
    (BmpReadTemperature \<in> set (io s') \<longleftrightarrow> BmpReadTemperature \<in> set (io s))"
proof -
  from loop_eq [OF assms(1), of inp] obtain a b c d e s' where
    a: "a = readBMP (bmp_pressure inp) (bmp_temperature inp) s" and
    b: "b = readDHT (dht_humidity inp) (dht_temperature inp) a" and
    c: "readDS 0 (ds_temp0 inp) b = Some c" and
    d: "readDS 1 (ds_temp1 inp) c = Some d" and
    e: "readDS 2 (ds_temp2 inp) d = Some e" and
    l: "loop inp s = Some s'" and v: "same_vars s' e" and w: "wf_state s'" and
    i: "io s' = io s @ bmp_events s @ handler_events (rx0 inp) a @
      dht_events @ handler_events (rx1 inp) b @
      ds_events 0 @ handler_events (rx2 inp) c @
      ds_events 1 @ handler_events (rx3 inp) d @
      ds_events 2 @ handler_events (rx4 inp) e"
    by blast
  have as: "a = s"
    using assms(2) by (simp add: a readBMP_absent)
  have "bmpFound e = bmpFound s" "bmpP e = bmpP s" "bmpT e = bmpT s"
    using readDS_vars [OF e] readDS_vars [OF d] readDS_vars [OF c] readDHT_vars [of _ _ a]
    by (simp_all add: b as)
  then have vs: "bmpFound s' = bmpFound s" "bmpP s' = bmpP s" "bmpT s' = bmpT s"
    using v by (simp_all add: same_vars_def)
  have "BmpReadPressure \<in> set (io s') \<longleftrightarrow> BmpReadPressure \<in> set (io s)"
    "BmpReadTemperature \<in> set (io s') \<longleftrightarrow> BmpReadTemperature \<in> set (io s)"
    using assms(2)
    by (simp_all add: i bmp_events_def dht_events_def ds_events_def handler_events_no_bmp)
  then show ?thesis
    using l w vs assms(2) by simp
qed

lemma run_bmp_absent:
  assumes "wf_state s" "\<not> bmpFound s"
  shows "\<exists>s'. run inps s = Some s' \<and> wf_state s' \<and> \<not> bmpFound s' \<and>
    bmpP s' = bmpP s \<and> bmpT s' = bmpT s \<and>
    (BmpReadPressure \<in> set (io s') \<longleftrightarrow> BmpReadPressure \<in> set (io s)) \<and>
    (BmpReadTemperature \<in> set (io s') \<longleftrightarrow> BmpReadTemperature \<in> set (io s))"
  using assms
proof (induction inps arbitrary: s)
  case Nil
  then show ?case by simp
next
  case (Cons inp inps)
  from loop_bmp_absent [OF Cons.prems, of inp] obtain s1 where
    l: "loop inp s = Some s1" and w: "wf_state s1" and f: "\<not> bmpFound s1" and
    r: "bmpP s1 = bmpP s" "bmpT s1 = bmpT s"
      "BmpReadPressure \<in> set (io s1) \<longleftrightarrow> BmpReadPressure \<in> set (io s)"
      "BmpReadTemperature \<in> set (io s1) \<longleftrightarrow> BmpReadTemperature \<in> set (io s)"
    by blast
  from Cons.IH [OF w f] obtain s' where
    "run inps s1 = Some s'" "wf_state s'" "\<not> bmpFound s'"
    "bmpP s' = bmpP s1" "bmpT s' = bmpT s1"
    "BmpReadPressure \<in> set (io s') \<longleftrightarrow> BmpReadPressure \<in> set (io s1)"
    "BmpReadTemperature \<in> set (io s') \<longleftrightarrow> BmpReadTemperature \<in> set (io s1)"
    by blast
  then show ?case
    using l r by simp
qed

text \<open>
  C10. When \<open>bmpFound\<close> is false, \<open>readBMP\<close> changes nothing: no sensor call, and
  \<open>bmpP\<close> and \<open>bmpT\<close> keep their values. So after \<open>setup\<close> with a BMP280 that is
  not detected, and any number of passes of \<open>loop\<close>, both channels still hold
  \<open>-100.0\<close> and the sensor has never been read.
\<close>

theorem bmp_absent_forever:
  "(\<not> bmpFound s \<longrightarrow> readBMP p t s = s) \<and>
   (\<exists>s'. run inps (setup_fn False found initial_state) = Some s' \<and>
      \<not> bmpFound s' \<and> bmpP s' = EMPTY_VAL \<and> bmpT s' = EMPTY_VAL \<and>
      BmpReadPressure \<notin> set (io s') \<and> BmpReadTemperature \<notin> set (io s'))"
proof -
  let ?s0 = "setup_fn False found initial_state"
  have w: "wf_state ?s0"
    using wf_initial_state by (simp add: setup_fn_eq wf_state_emit)
  have f: "\<not> bmpFound ?s0" and v: "bmpP ?s0 = EMPTY_VAL" "bmpT ?s0 = EMPTY_VAL"
    by (simp_all add: setup_fn_eq emit_def initial_state_def)
  have n: "BmpReadPressure \<notin> set (io ?s0)" "BmpReadTemperature \<notin> set (io ?s0)"
    by (simp_all add: setup_fn_eq emit_def initial_state_def ds_init_events_no_bmp)
  from run_bmp_absent [OF w f, of inps] v n
  have "\<exists>s'. run inps ?s0 = Some s' \<and>
      \<not> bmpFound s' \<and> bmpP s' = EMPTY_VAL \<and> bmpT s' = EMPTY_VAL \<and>
      BmpReadPressure \<notin> set (io s') \<and> BmpReadTemperature \<notin> set (io s')"
    by auto
  then show ?thesis
    by (simp add: readBMP_absent)
qed

theorem bmp_absent_forever_witness:
  "\<not> bmpFound (setup_fn False none_found initial_state) \<and>
   readBMP 0x47C5E680 0x41B40000 (setup_fn False none_found initial_state) =
     setup_fn False none_found initial_state \<and>
   (\<exists>s'. run [sample_input, sample_input] (setup_fn False none_found initial_state) = Some s' \<and>
      \<not> bmpFound s' \<and> bmpP s' = EMPTY_VAL \<and> bmpT s' = EMPTY_VAL \<and>
      BmpReadPressure \<notin> set (io s') \<and> BmpReadTemperature \<notin> set (io s'))"
proof -
  have f: "\<not> bmpFound (setup_fn False none_found initial_state)"
    by (simp add: setup_fn_eq emit_def initial_state_def)
  from bmp_absent_forever [of "setup_fn False none_found initial_state" "0x47C5E680" "0x41B40000"
      "[sample_input, sample_input]" none_found] f
  show ?thesis by blast
qed

subsection \<open>Failed reads\<close>

lemma qnan_facts: "isnan qnan" "qnan \<noteq> EMPTY_VAL"
  by (simp_all add: isnan_def qnan_def EMPTY_VAL_def)

text \<open>
  C2 (amended). A DHT read in which either returned value is a NaN stores \<open>-100.0\<close>
  in both DHT channels, and otherwise stores the two values. A BMP280 that was not detected
  is not read, so both pressure channels keep their value (\<open>-100.0\<close> from start-up). A
  read of a detected BMP280 and every probe read store what the driver returns as it is; no
  sentinel is substituted. The float fields of a frame read back as the stored readings, and
  all seven readings are \<open>-100.0\<close> at start-up.
\<close>

theorem sentinel_policy:
  "(isnan h \<or> isnan t \<longrightarrow>
      dhtH (readDHT h t s) = EMPTY_VAL \<and> dhtT (readDHT h t s) = EMPTY_VAL) \<and>
   (\<not> isnan h \<and> \<not> isnan t \<longrightarrow> dhtH (readDHT h t s) = h \<and> dhtT (readDHT h t s) = t) \<and>
   (\<not> bmpFound s \<longrightarrow> bmpP (readBMP p q s) = bmpP s \<and> bmpT (readBMP p q s) = bmpT s) \<and>
   (bmpFound s \<longrightarrow> bmpP (readBMP p q s) = p \<and> bmpT (readBMP p q s) = q) \<and>
   (0 \<le> i \<and> i < 3 \<and> wf_state s \<longrightarrow> (\<exists>s'. readDS i v s = Some s' \<and> dsT s' ! nat i = v)) \<and>
   (wf_state s \<and> 0xDF \<in> set rx \<longrightarrow>
      (\<exists>s' f. communicate rx s = Some s' \<and>
         serial_writes (io s') = serial_writes (io s) @ [f] \<and>
         map (frame_float f) [3, 7, 11, 15, 19, 23, 27] = readings s)) \<and>
   readings initial_state = replicate 7 EMPTY_VAL"
proof -
  have dht: "(isnan h \<or> isnan t \<longrightarrow>
      dhtH (readDHT h t s) = EMPTY_VAL \<and> dhtT (readDHT h t s) = EMPTY_VAL) \<and>
   (\<not> isnan h \<and> \<not> isnan t \<longrightarrow> dhtH (readDHT h t s) = h \<and> dhtT (readDHT h t s) = t)"
    by (simp add: readDHT_def emit_def Let_def)
  have bmp: "(\<not> bmpFound s \<longrightarrow> bmpP (readBMP p q s) = bmpP s \<and> bmpT (readBMP p q s) = bmpT s) \<and>
   (bmpFound s \<longrightarrow> bmpP (readBMP p q s) = p \<and> bmpT (readBMP p q s) = q)"
    by (simp add: readBMP_def emit_def Let_def)
  have ds: "0 \<le> i \<and> i < 3 \<and> wf_state s \<longrightarrow> (\<exists>s'. readDS i v s = Some s' \<and> dsT s' ! nat i = v)"
    by (auto simp add: readDS_eq wf_state_def ONE_WIRE_CNT_def)
  have fr: "wf_state s \<and> 0xDF \<in> set rx \<longrightarrow>
      (\<exists>s' f. communicate rx s = Some s' \<and>
         serial_writes (io s') = serial_writes (io s) @ [f] \<and>
         map (frame_float f) [3, 7, 11, 15, 19, 23, 27] = readings s)"
    using communicate_send [of s rx] frame_floats [of s] by blast
  from dht bmp ds fr readings_initial_state show ?thesis
    by simp
qed

theorem sentinel_policy_witness:
  "(isnan qnan \<or> isnan 0x41B00000) \<and>
   dhtH (readDHT qnan 0x41B00000 initial_state) = EMPTY_VAL \<and>
   dhtT (readDHT qnan 0x41B00000 initial_state) = EMPTY_VAL \<and>
   \<not> bmpFound initial_state \<and>
   bmpP (readBMP qnan qnan initial_state) = EMPTY_VAL \<and>
   bmpT (readBMP qnan qnan initial_state) = EMPTY_VAL \<and>
   (0 \<le> (1::int) \<and> (1::int) < 3 \<and> wf_state initial_state) \<and>
   (\<exists>s'. readDS 1 qnan initial_state = Some s' \<and> dsT s' ! nat 1 = qnan) \<and>
   0xDF \<in> set [0xDF :: byte] \<and>
   (\<exists>s' f. communicate [0xDF] initial_state = Some s' \<and>
      serial_writes (io s') = serial_writes (io initial_state) @ [f] \<and>
      map (frame_float f) [3, 7, 11, 15, 19, 23, 27] = replicate 7 EMPTY_VAL) \<and>
   (\<not> isnan 0x42340000 \<and> \<not> isnan 0x41B00000) \<and>
   dhtH (readDHT 0x42340000 0x41B00000 (initial_state\<lparr>bmpFound := True\<rparr>)) = 0x42340000 \<and>
   dhtT (readDHT 0x42340000 0x41B00000 (initial_state\<lparr>bmpFound := True\<rparr>)) = 0x41B00000 \<and>
   bmpFound (initial_state\<lparr>bmpFound := True\<rparr>) \<and>
   bmpP (readBMP qnan qnan (initial_state\<lparr>bmpFound := True\<rparr>)) = qnan \<and>
   bmpT (readBMP qnan qnan (initial_state\<lparr>bmpFound := True\<rparr>)) = qnan"
proof -
  have h1: "isnan qnan \<or> isnan 0x41B00000"
    by (simp add: qnan_facts)
  have h2: "\<not> bmpFound initial_state" "bmpP initial_state = EMPTY_VAL" "bmpT initial_state = EMPTY_VAL"
    by (simp_all add: initial_state_def)
  have h3: "0 \<le> (1::int) \<and> (1::int) < 3 \<and> wf_state initial_state"
    by (simp add: wf_initial_state)
  have h4: "wf_state initial_state \<and> 0xDF \<in> set [0xDF :: byte]"
    by (simp add: wf_initial_state)
  have h5: "\<not> isnan 0x42340000 \<and> \<not> isnan 0x41B00000"
    by (simp add: isnan_def)
  have h6: "bmpFound (initial_state\<lparr>bmpFound := True\<rparr>)"
    by simp
  note a = sentinel_policy [of qnan "0x41B00000" initial_state qnan qnan 1 qnan "[0xDF]"]
  note b = sentinel_policy [of "0x42340000" "0x41B00000" "initial_state\<lparr>bmpFound := True\<rparr>" qnan qnan 1 qnan "[0xDF]"]
  from a h1 have a1: "dhtH (readDHT qnan 0x41B00000 initial_state) = EMPTY_VAL"
    "dhtT (readDHT qnan 0x41B00000 initial_state) = EMPTY_VAL"
    by blast+
  from a h2 have a2: "bmpP (readBMP qnan qnan initial_state) = EMPTY_VAL"
    "bmpT (readBMP qnan qnan initial_state) = EMPTY_VAL"
    by simp_all
  from a h3 have a3: "\<exists>s'. readDS 1 qnan initial_state = Some s' \<and> dsT s' ! nat 1 = qnan"
    by blast
  from a h4 readings_initial_state
  have a4: "\<exists>s' f. communicate [0xDF] initial_state = Some s' \<and>
      serial_writes (io s') = serial_writes (io initial_state) @ [f] \<and>
      map (frame_float f) [3, 7, 11, 15, 19, 23, 27] = replicate 7 EMPTY_VAL"
    by metis
  from b h5 have b1:
    "dhtH (readDHT 0x42340000 0x41B00000 (initial_state\<lparr>bmpFound := True\<rparr>)) = 0x42340000"
    "dhtT (readDHT 0x42340000 0x41B00000 (initial_state\<lparr>bmpFound := True\<rparr>)) = 0x41B00000"
    by blast+
  from b h6 have b2:
    "bmpP (readBMP qnan qnan (initial_state\<lparr>bmpFound := True\<rparr>)) = qnan"
    "bmpT (readBMP qnan qnan (initial_state\<lparr>bmpFound := True\<rparr>)) = qnan"
    by blast+
  from h1 a1 h2(1) a2 h3 a3 h4 a4 h5 b1 h6 b2 show ?thesis
    by blast
qed

text \<open>
  The unamended statement fails for the probe and the pressure family: a probe read whose
  driver returns a NaN stores the NaN in \<open>dsT[0]\<close>, and so does a read of a detected
  BMP280.
\<close>

theorem sentinel_on_failure_counterexample:
  "isnan qnan \<and> qnan \<noteq> EMPTY_VAL \<and>
   readDS 0 qnan initial_state =
     Some (initial_state\<lparr>dsT := [qnan, EMPTY_VAL, EMPTY_VAL],
        io := [DsRequestTemperatures 0, DsGetTempCByIndex 0]\<rparr>) \<and>
   readBMP qnan qnan (initial_state\<lparr>bmpFound := True\<rparr>) =
     initial_state\<lparr>bmpFound := True, bmpP := qnan, bmpT := qnan,
        io := [BmpReadPressure, BmpReadTemperature]\<rparr>"
  by (simp add: qnan_facts readDS_eq ds_events_def)
     (simp add: initial_state_def readBMP_def emit_def Let_def)

lemma upt_0_3: "[0..<3] = [0, 1, 2]"
  by code_simp

subsection \<open>Devices that are not detected\<close>

lemma setup_none_found_io:
  "io (setup_fn False none_found initial_state) =
     [SerialBegin 9600, BmpBegin, DhtBegin,
      DsSetOneWire 0, DsBegin 0, DsGetAddress 0,
      DsSetOneWire 1, DsBegin 1, DsGetAddress 1,
      DsSetOneWire 2, DsBegin 2, DsGetAddress 2]"
  by (simp add: setup_fn_eq emit_def initial_state_def ONE_WIRE_CNT_def upt_0_3
      ds_init_events_def none_found_def)

text \<open>
  C3 (amended). The absent-device shortcut exists for the pressure sensor only:
  \<open>initBMP\<close> sets \<open>bmpFound\<close> exactly when the BMP280 answers, and \<open>readBMP\<close> with
  \<open>bmpFound\<close> false does nothing, while with \<open>bmpFound\<close> true it calls the sensor.
  \<open>initDS\<close> changes no variable of the sketch, whatever it detects, and every
  \<open>readDS\<close> requests a conversion, reads the probe and stores the value returned;
  \<open>readDHT\<close> calls its sensor on every read.
\<close>

theorem absent_device_policy:
  "(\<not> bmpFound s \<longrightarrow> readBMP p q s = s) \<and>
   (bmpFound s \<longrightarrow> io (readBMP p q s) = io s @ [BmpReadPressure, BmpReadTemperature]) \<and>
   bmpFound (initBMP ok initial_state) = ok \<and>
   io (readDHT h t s) = io s @ [DhtReadHumidity, DhtReadTemperature] \<and>
   (initDS found s)\<lparr>io := io s\<rparr> = s \<and>
   (0 \<le> i \<and> i < 3 \<longrightarrow>
      readDS i v s = Some (s\<lparr>dsT := (dsT s)[nat i := v],
        io := io s @ [DsRequestTemperatures i, DsGetTempCByIndex i]\<rparr>))"
  by (simp add: readBMP_absent readBMP_io bmp_events_def readDHT_io dht_events_def
      initBMP_def emit_def Let_def initial_state_def initDS_def fold_initDS_body
      readDS_eq ds_events_def)

theorem absent_device_policy_witness:
  "\<not> bmpFound initial_state \<and>
   readBMP 0x47C5E680 0x41B40000 initial_state = initial_state \<and>
   bmpFound (initBMP True initial_state) \<and>
   io (readBMP 0x47C5E680 0x41B40000 (initBMP True initial_state)) =
     io (initBMP True initial_state) @ [BmpReadPressure, BmpReadTemperature] \<and>
   (0 \<le> (2::int) \<and> (2::int) < 3) \<and>
   readDS 2 0x419F3333 initial_state =
     Some (initial_state\<lparr>dsT := (dsT initial_state)[nat 2 := 0x419F3333],
       io := io initial_state @ [DsRequestTemperatures 2, DsGetTempCByIndex 2]\<rparr>)"
proof -
  have h1: "\<not> bmpFound initial_state"
    by (simp add: initial_state_def)
  have h2: "0 \<le> (2::int) \<and> (2::int) < 3"
    by simp
  note a = absent_device_policy [of initial_state "0x47C5E680" "0x41B40000" True
      "0x42340000" "0x41B00000" none_found 2 "0x419F3333"]
  note b = absent_device_policy [of "initBMP True initial_state" "0x47C5E680" "0x41B40000" True
      "0x42340000" "0x41B00000" none_found 2 "0x419F3333"]
  from a have h3: "bmpFound (initBMP True initial_state)"
    by blast
  from a h1 have a1: "readBMP 0x47C5E680 0x41B40000 initial_state = initial_state"
    by blast
  from a h2 have a2: "readDS 2 0x419F3333 initial_state =
     Some (initial_state\<lparr>dsT := (dsT initial_state)[nat 2 := 0x419F3333],
       io := io initial_state @ [DsRequestTemperatures 2, DsGetTempCByIndex 2]\<rparr>)"
    by blast
  from b h3 have b1: "io (readBMP 0x47C5E680 0x41B40000 (initBMP True initial_state)) =
     io (initBMP True initial_state) @ [BmpReadPressure, BmpReadTemperature]"
    by blast
  from h1 a1 h3 b1 h2 a2 show ?thesis
    by blast
qed

text \<open>
  The unamended statement fails: after \<open>setup\<close> with no device detected at all, reading
  probe 0 still performs both calls on the bus and stores the value returned, and it is the
  pressure read that is skipped.
\<close>

theorem absent_probe_counterexample:
  "io (setup_fn False none_found initial_state) =
     [SerialBegin 9600, BmpBegin, DhtBegin,
      DsSetOneWire 0, DsBegin 0, DsGetAddress 0,
      DsSetOneWire 1, DsBegin 1, DsGetAddress 1,
      DsSetOneWire 2, DsBegin 2, DsGetAddress 2] \<and>
   readDS 0 0x41A0CCCD (setup_fn False none_found initial_state) =
     Some ((setup_fn False none_found initial_state)
       \<lparr>dsT := [0x41A0CCCD, EMPTY_VAL, EMPTY_VAL],
        io := io (setup_fn False none_found initial_state) @
          [DsRequestTemperatures 0, DsGetTempCByIndex 0]\<rparr>) \<and>
   readBMP 0x47C5E680 0x41B40000 (setup_fn False none_found initial_state) =
     setup_fn False none_found initial_state"
proof -
  have d: "dsT (setup_fn False none_found initial_state) = [EMPTY_VAL, EMPTY_VAL, EMPTY_VAL]"
    and f: "\<not> bmpFound (setup_fn False none_found initial_state)"
    by (simp_all add: setup_fn_eq emit_def initial_state_def)
  show ?thesis
    using setup_none_found_io
    by (simp add: readDS_eq ds_events_def d readBMP_absent [OF f])
qed

end
